theory Spec2Isabelle
  imports Main "HOL-Library.Sublist" "HOL-Library.Word"
begin

section \<open>Strings as the engine's source uses them\<close>

text \<open>
  A \<^verbatim>\<open>std::string\<close> is a \<^typ>\<open>string\<close>. \<^verbatim>\<open>s.find(pat)\<close> is the index of the
  first occurrence of \<^verbatim>\<open>pat\<close>, or \<^verbatim>\<open>npos\<close>; here \<open>None\<close> stands for
  \<^verbatim>\<open>npos\<close>, and the places where the source computes with \<^verbatim>\<open>npos\<close> write the
  64-bit wrap-around out.
\<close>

fun find_str :: "string \<Rightarrow> string \<Rightarrow> nat option" where
  "find_str pat [] = (if pat = [] then Some 0 else None)"
| "find_str pat (c # cs) =
     (if prefix pat (c # cs) then Some 0 else map_option Suc (find_str pat cs))"

text \<open>\<^verbatim>\<open>s.find(pat, pos)\<close>: the search starts at index \<open>pos\<close>.\<close>

definition find_from :: "string \<Rightarrow> string \<Rightarrow> nat \<Rightarrow> nat option" where
  "find_from s pat pos =
     (if length s < pos then None
      else map_option (\<lambda>i. pos + i) (find_str pat (drop pos s)))"

text \<open>\<^verbatim>\<open>size_t\<close> is 64 bits wide: \<^verbatim>\<open>npos\<close> is its largest value.\<close>

definition size_t_mod :: nat where
  "size_t_mod = 2 ^ 64"

definition npos :: nat where
  "npos = size_t_mod - 1"

definition size_t_of :: "nat option \<Rightarrow> nat" where
  "size_t_of r = (case r of None \<Rightarrow> npos | Some i \<Rightarrow> i)"

text \<open>\<^verbatim>\<open>s.substr(pos, n)\<close> and \<^verbatim>\<open>s.erase(pos, n)\<close>, for \<open>pos \<le> length s\<close> (the only
  way the source calls them): both stop at the end of the string.\<close>

definition substr :: "string \<Rightarrow> nat \<Rightarrow> nat \<Rightarrow> string" where
  "substr s pos n = take n (drop pos s)"

definition erase :: "string \<Rightarrow> nat \<Rightarrow> nat \<Rightarrow> string" where
  "erase s pos n = take pos s @ drop (pos + n) s"

text \<open>Modelled from the spec: \<^verbatim>\<open>EnsureEndsWith\<close> (System/StringUtil.h) is not among the
  sources; it appends the ending unless the string already ends with it.\<close>

definition EnsureEndsWith :: "string \<Rightarrow> string \<Rightarrow> string" where
  "EnsureEndsWith str endStr = (if suffix endStr str then str else str @ endStr)"

section \<open>Logging\<close>

datatype log_level = L_ERROR | L_WARNING

type_synonym log_entry = "log_level \<times> string"

section \<open>Shader sources\<close>

text \<open>The file system behind \<^verbatim>\<open>CFileHandler\<close>: a path either names no file
  (\<^verbatim>\<open>FileExists()\<close> is false) or gives the file's content.\<close>

type_synonym file_system = "string \<Rightarrow> string option"

definition GetShaderSource :: "file_system \<Rightarrow> string \<Rightarrow> string \<times> log_entry list" where
  "GetShaderSource fs srcData =
     (if find_str ''void main()'' srcData \<noteq> None then (srcData, [])
      else
        let soPath = ''shaders/'' @ srcData in
        (case fs soPath of
           Some content \<Rightarrow> (content, [])
         | None \<Rightarrow>
             ('''', [(L_ERROR, ''[GetShaderSource] file '' @ [CHR 0x22] @ soPath @ [CHR 0x22] @ '' not found'')])))"

text \<open>\<^verbatim>\<open>ExtractVersionDirective(src, version)\<close> changes both arguments in place; the model
  returns them with the result. When no line end follows the directive,
  \<^verbatim>\<open>src.find('\n', pos)\<close> is \<^verbatim>\<open>npos\<close>, \<open>eol\<close> wraps around to 0 and the count
  \<open>eol - pos\<close> wraps around as well.\<close>

definition ExtractVersionDirective :: "string \<Rightarrow> string \<Rightarrow> string \<times> string \<times> bool" where
  "ExtractVersionDirective src version =
     (case find_str ''#version '' src of
        Some pos \<Rightarrow>
          let eol = (size_t_of (find_from src ''\<newline>'' pos) + 1) mod size_t_mod;
              n = (eol + size_t_mod - pos) mod size_t_mod
          in (erase src pos n, substr src pos n, True)
      | None \<Rightarrow> (src, version, False))"

section \<open>Shader objects\<close>

record shader_object =
  so_type :: nat
  srcData :: string
  srcText :: string
  rawDefStrs :: string
  modDefStrs :: string

definition ReloadFromTextOrFile ::
  "file_system \<Rightarrow> shader_object \<Rightarrow> shader_object \<times> bool \<times> log_entry list" where
  "ReloadFromTextOrFile fs so =
     (let (newText, msgs) = GetShaderSource fs (srcData so) in
      if newText \<noteq> srcText so then (so\<lparr>srcText := newText\<rparr>, True, msgs)
      else (so, False, msgs))"

text \<open>The seven strings \<^verbatim>\<open>CreateAndCompileShaderObject\<close> hands to
  \<^verbatim>\<open>glShaderSource\<close>, in the order of the \<^verbatim>\<open>sources\<close> array.\<close>

definition shader_sources :: "shader_object \<Rightarrow> string list" where
  "shader_sources so =
     (let versionStr = '''';
          sourceStr = srcText so;
          defFlags = rawDefStrs so @ ''\<newline>'' @ modDefStrs so;
          (sourceStr, versionStr, _) = ExtractVersionDirective sourceStr versionStr;
          (defFlags, versionStr, _) = ExtractVersionDirective defFlags versionStr;
          versionStr = (if versionStr \<noteq> '''' then EnsureEndsWith versionStr ''\<newline>'' else versionStr);
          defFlags = (if defFlags \<noteq> '''' then EnsureEndsWith defFlags ''\<newline>'' else defFlags)
      in [''// SHADER VERSION\<newline>'', versionStr, ''// SHADER FLAGS\<newline>'', defFlags,
          ''// SHADER SOURCE\<newline>'', ''#line 1\<newline>'', sourceStr])"

text \<open>The version directive of a text, said directly: the part from the first
  \<^verbatim>\<open>#version \<close> to the end of that line, the line end included when there is one; and
  the text without it.\<close>

definition directive_of :: "string \<Rightarrow> string" where
  "directive_of s =
     (case find_str ''#version '' s of
        None \<Rightarrow> ''''
      | Some pos \<Rightarrow>
          takeWhile (\<lambda>c. c \<noteq> CHR ''\<newline>'') (drop pos s) @
          take 1 (dropWhile (\<lambda>c. c \<noteq> CHR ''\<newline>'') (drop pos s)))"

definition without_directive :: "string \<Rightarrow> string" where
  "without_directive s =
     (case find_str ''#version '' s of
        None \<Rightarrow> s
      | Some pos \<Rightarrow>
          take pos s @ drop 1 (dropWhile (\<lambda>c. c \<noteq> CHR ''\<newline>'') (drop pos s)))"

section \<open>Collaborators outside the sources\<close>

unbundle bit_operations_syntax

type_synonym u32 = "32 word"

text \<open>A failed \<^verbatim>\<open>assert\<close> (in a build without \<^verbatim>\<open>NDEBUG\<close>), and the two reads the
  source leaves undefined: an index outside \<^verbatim>\<open>uniformLocs\<close> and a
  \<^verbatim>\<open>UniformState*\<close> that points at no state of the program.\<close>

datatype error = AssertionFailed | IndexOutOfRange | DanglingUniformState

text \<open>The arguments of the seventeen \<^verbatim>\<open>glUniform*\<close> calls, one constructor per call.
  A \<^verbatim>\<open>float\<close> is carried as its 32-bit pattern; the pointer variants carry the values
  read through the pointer.\<close>

type_synonym glfloat = "32 word"

datatype uniform_args =
    U1i int | U2i int int | U3i int int int | U4i int int int int
  | U1f glfloat | U2f glfloat glfloat | U3f glfloat glfloat glfloat
  | U4f glfloat glfloat glfloat glfloat
  | U2iv "int list" | U3iv "int list" | U4iv "int list"
  | U2fv "glfloat list" | U3fv "glfloat list" | U4fv "glfloat list"
  | UMatrix2fv bool "glfloat list" | UMatrix3fv bool "glfloat list"
  | UMatrix4fv bool "glfloat list"

text \<open>The calls into OpenGL, in the order they are made. \<open>GlslCopyState\<close> stands for the
  calls \<^verbatim>\<open>GLSLCopyState\<close> makes (that function is not among the sources).\<close>

datatype gl_call =
    GlCreateProgram nat
  | GlCreateShader nat nat
  | GlShaderSource nat "string list"
  | GlCompileShader nat
  | GlAttachShader nat nat
  | GlDeleteShader nat
  | GlLinkProgram nat
  | GlValidateProgram nat
  | GlDeleteProgram nat
  | GlUseProgram nat
  | GlUniform int uniform_args
  | GlslCopyState nat nat

text \<open>
  The collaborators whose code is not among the sources are parameters: the hash functions,
  the file system, the configuration switch, the build flag, the definition flags of a
  program (\<^verbatim>\<open>shaderFlags\<close>, of a type \<open>'fl\<close> left open), the name a
  \<^verbatim>\<open>CompiledShaderObject\<close> is left with when its content is moved out (its move
  constructor is declared in Shader.h) and the answers of the OpenGL driver. Every answer
  of the driver may depend on the calls made so far: the object names it hands out, what
  \<^verbatim>\<open>glIsShader\<close> and \<^verbatim>\<open>glIsProgram\<close> say of a name, the compile, link and
  validation status of a name, its shader or program info log, and a uniform's location.
\<close>

record 'fl env =
  NDEBUG :: bool
  HsiehHash :: "string \<Rightarrow> u32 \<Rightarrow> u32"
  hashString :: "string \<Rightarrow> nat"
  fileSystem :: file_system
  UseShaderCache :: bool
  flags_HashSet :: "'fl \<Rightarrow> bool"
  flags_Updated :: "'fl \<Rightarrow> bool"
  flags_UpdateHash :: "'fl \<Rightarrow> 'fl \<times> u32"
  flags_GetString :: "'fl \<Rightarrow> string"
  flags_Clear :: "'fl \<Rightarrow> 'fl"
  cso_moved_id :: "nat \<Rightarrow> nat"
  gl_new_program :: "gl_call list \<Rightarrow> nat"
  gl_new_shader :: "gl_call list \<Rightarrow> nat"
  gl_is_shader :: "gl_call list \<Rightarrow> nat \<Rightarrow> bool"
  gl_is_program :: "gl_call list \<Rightarrow> nat \<Rightarrow> bool"
  gl_compile_status :: "gl_call list \<Rightarrow> nat \<Rightarrow> bool"
  gl_shader_log :: "gl_call list \<Rightarrow> nat \<Rightarrow> string"
  gl_link_status :: "gl_call list \<Rightarrow> nat \<Rightarrow> bool"
  gl_program_log :: "gl_call list \<Rightarrow> nat \<Rightarrow> string"
  gl_validate_status :: "gl_call list \<Rightarrow> nat \<Rightarrow> bool"
  gl_uniform_location :: "gl_call list \<Rightarrow> nat \<Rightarrow> string \<Rightarrow> int"

text \<open>What the code changes outside the program object: the calls made to OpenGL, the
  process-wide program cache and the engine's log.\<close>

record world =
  gl_calls :: "gl_call list"
  shaderCache :: "u32 \<rightharpoonup> nat"
  engine_log :: "log_entry list"

definition gl_do :: "gl_call \<Rightarrow> world \<Rightarrow> world" where
  "gl_do c w = w\<lparr>gl_calls := gl_calls w @ [c]\<rparr>"

definition LOG_L :: "log_level \<Rightarrow> string \<Rightarrow> world \<Rightarrow> world" where
  "LOG_L lvl msg w = w\<lparr>engine_log := engine_log w @ [(lvl, msg)]\<rparr>"

definition assert_fails :: "'fl env \<Rightarrow> bool \<Rightarrow> bool" where
  "assert_fails e cond = (\<not> NDEBUG e \<and> \<not> cond)"

text \<open>\<^verbatim>\<open>glslIsValid(obj)\<close> and \<^verbatim>\<open>glslGetLog(obj)\<close>: both assert that the name is a
  shader or a program, and both ask the shader or the program side of the driver
  according to \<^verbatim>\<open>glIsShader\<close>.\<close>

definition glslIsValid :: "'fl env \<Rightarrow> gl_call list \<Rightarrow> nat \<Rightarrow> error + bool" where
  "glslIsValid e calls obj =
     (if assert_fails e (gl_is_shader e calls obj \<or> gl_is_program e calls obj)
      then Inl AssertionFailed
      else Inr (if gl_is_shader e calls obj then gl_compile_status e calls obj
                else gl_link_status e calls obj))"

definition glslGetLog :: "'fl env \<Rightarrow> gl_call list \<Rightarrow> nat \<Rightarrow> error + string" where
  "glslGetLog e calls obj =
     (if assert_fails e (gl_is_shader e calls obj \<or> gl_is_program e calls obj)
      then Inl AssertionFailed
      else Inr (if gl_is_shader e calls obj then gl_shader_log e calls obj
                else gl_program_log e calls obj))"

text \<open>Modelled from the spec: the program cache (\<^verbatim>\<open>CShaderHandler::ShaderCache\<close>) is not
  among the sources. \<open>Find\<close> returns the handle stored under a hash or the "none" value 0;
  \<open>Push\<close> registers a handle under a hash if the hash is not present yet, and tells whether
  it did.\<close>

definition Find :: "(u32 \<rightharpoonup> nat) \<Rightarrow> u32 \<Rightarrow> nat" where
  "Find cache hc = (case cache hc of None \<Rightarrow> 0 | Some g \<Rightarrow> g)"

definition Push :: "(u32 \<rightharpoonup> nat) \<Rightarrow> u32 \<Rightarrow> nat \<Rightarrow> (u32 \<rightharpoonup> nat) \<times> bool" where
  "Push cache hc g = (if cache hc = None then (cache(hc \<mapsto> g), True) else (cache, False))"

section \<open>Uniform states\<close>

text \<open>\<^verbatim>\<open>GL_INVALID_INDEX\<close> is \<^verbatim>\<open>0xFFFFFFFFu\<close>; stored in the \<^verbatim>\<open>int\<close> location of a
  uniform state it is \<open>-1\<close>, which is also what \<^verbatim>\<open>glGetUniformLocation\<close> answers for a
  name the program does not have.\<close>

definition GL_INVALID_INDEX :: int where
  "GL_INVALID_INDEX = - 1"

text \<open>Modelled from the spec: the \<^verbatim>\<open>UniformState\<close> class (Shader.h) is not among the
  sources. The spec's words: a uniform state holds the name, the GPU location (or the "not
  found" value) and the last-set value with an initialised flag; \<open>None\<close> is a state never
  set. \<^verbatim>\<open>SetLocation\<close> stores a location; a location is valid when it is not the "not
  found" value.\<close>

record uniform_state =
  us_name :: string
  us_location :: int
  us_value :: "uniform_args option"

definition SetLocation :: "int \<Rightarrow> uniform_state \<Rightarrow> uniform_state" where
  "SetLocation loc us = us\<lparr>us_location := loc\<rparr>"

definition IsLocationValid :: "uniform_state \<Rightarrow> bool" where
  "IsLocationValid us = (us_location us \<noteq> GL_INVALID_INDEX)"

text \<open>Modelled from the spec: \<^verbatim>\<open>UniformState::Set\<close> and its siblings
  (\<^verbatim>\<open>Set2v\<close>, ..., \<^verbatim>\<open>Set4x4\<close>) are not among the sources. The spec's words: the
  variants compare the arity-matched value tuple (with the transpose flag of a matrix)
  against the cached value and return whether a GPU write is required; a new value that
  differs updates the cache; a location of "not found" silently disables writes for that
  uniform. A state that was never set (\<open>None\<close>) differs from every value.\<close>

definition Set_value :: "uniform_args \<Rightarrow> uniform_state \<Rightarrow> uniform_state \<times> bool" where
  "Set_value v us =
     (if us_value us = Some v then (us, False)
      else (us\<lparr>us_value := Some v\<rparr>, IsLocationValid us))"

section \<open>Program objects\<close>

text \<open>The shader objects of a program are held by value: the list stands for the objects
  the pointers of \<^verbatim>\<open>shaderObjs\<close> point at. The uniform-state table is keyed by the hash
  of the uniform's name.\<close>

record 'fl program_object =
  po_name :: string
  glid :: nat
  hash :: u32
  valid :: bool
  bound :: bool
  shaderObjs :: "shader_object list"
  uniformStates :: "nat \<rightharpoonup> uniform_state"
  uniformLocs :: "nat list"
  log :: string
  shaderFlags :: 'fl

definition GetHash :: "'fl env \<Rightarrow> shader_object \<Rightarrow> u32" where
  "GetHash e so =
     (let hash = 127;
          hash = HsiehHash e (srcText so) hash;
          hash = HsiehHash e (modDefStrs so) hash;
          hash = HsiehHash e (rawDefStrs so) hash
      in hash)"

text \<open>Modelled from the spec: \<^verbatim>\<open>IShaderObject::SetDefinitions\<close> (Shader.h) is not among the
  sources; it stores the given string as the modifiable definition string.\<close>

definition SetDefinitions :: "string \<Rightarrow> shader_object \<Rightarrow> shader_object" where
  "SetDefinitions defs so = so\<lparr>modDefStrs := defs\<rparr>"

text \<open>Modelled from the spec: \<^verbatim>\<open>IProgramObject::Enable\<close> and
  \<^verbatim>\<open>IProgramObject::Disable\<close> (Shader.h) are not among the sources; \<open>Enable\<close> marks the
  program bound, \<open>Disable\<close> marks it unbound.\<close>

definition IProgramObject_Enable :: "'fl program_object \<Rightarrow> 'fl program_object" where
  "IProgramObject_Enable po = po\<lparr>bound := True\<rparr>"

definition IProgramObject_Disable :: "'fl program_object \<Rightarrow> 'fl program_object" where
  "IProgramObject_Disable po = po\<lparr>bound := False\<rparr>"

definition IProgramObject_Release :: "'fl program_object \<Rightarrow> 'fl program_object" where
  "IProgramObject_Release po =
     po\<lparr>glid := 0, hash := 0, valid := False, bound := False,
        uniformStates := Map.empty, shaderObjs := [], log := ''''\<rparr>"

definition ClearUniformLocations :: "'fl program_object \<Rightarrow> 'fl program_object" where
  "ClearUniformLocations po =
     po\<lparr>uniformStates := map_option (SetLocation GL_INVALID_INDEX) \<circ> uniformStates po\<rparr>"

definition SetShaderDefinitions :: "string \<Rightarrow> 'fl program_object \<Rightarrow> 'fl program_object" where
  "SetShaderDefinitions defs po = po\<lparr>shaderObjs := map (SetDefinitions defs) (shaderObjs po)\<rparr>"

fun reload_each ::
  "file_system \<Rightarrow> shader_object list \<Rightarrow> shader_object list \<times> log_entry list" where
  "reload_each fs [] = ([], [])"
| "reload_each fs (so # sos) =
     (let (so', _, msgs) = ReloadFromTextOrFile fs so;
          (sos', msgs') = reload_each fs sos
      in (so' # sos', msgs @ msgs'))"

definition ReloadShaderObjects ::
  "'fl env \<Rightarrow> 'fl program_object \<Rightarrow> world \<Rightarrow> 'fl program_object \<times> world" where
  "ReloadShaderObjects e po w =
     (let (sos, msgs) = reload_each (fileSystem e) (shaderObjs po)
      in (po\<lparr>shaderObjs := sos\<rparr>, w\<lparr>engine_log := engine_log w @ msgs\<rparr>))"

definition RecalculateShaderHash :: "'fl env \<Rightarrow> 'fl program_object \<Rightarrow> 'fl program_object" where
  "RecalculateShaderHash e po =
     (let (fl, h) = flags_UpdateHash e (shaderFlags po)
      in po\<lparr>shaderFlags := fl, hash := fold (\<lambda>so h. h XOR GetHash e so) (shaderObjs po) h\<rparr>)"

definition ReloadState ::
  "'fl env \<Rightarrow> bool \<Rightarrow> 'fl program_object \<Rightarrow> world \<Rightarrow> bool \<times> 'fl program_object \<times> world" where
  "ReloadState e reloadShaderObjs po w =
     (let po = po\<lparr>log := ''''\<rparr>;
          po = ClearUniformLocations po;
          po = SetShaderDefinitions (flags_GetString e (shaderFlags po)) po;
          (po, w) = (if reloadShaderObjs then ReloadShaderObjects e po w else (po, w));
          po = RecalculateShaderHash e po
      in (shaderObjs po \<noteq> [], po, w))"
section \<open>Compiling and linking\<close>

text \<open>\<^verbatim>\<open>CreateAndCompileShaderObject(programLog)\<close>: the result is the compiled object's
  name and validity, the program log and the world. The function returns
  \<^verbatim>\<open>std::move(cso)\<close>: the returned object takes the name over, and the destructor of the
  local object, which runs as the function returns, calls \<^verbatim>\<open>glDeleteShader\<close> with the
  name the move left it.\<close>

definition CreateAndCompileShaderObject ::
  "'fl env \<Rightarrow> shader_object \<Rightarrow> string \<Rightarrow> world \<Rightarrow> error + (nat \<times> bool \<times> string \<times> world)" where
  "CreateAndCompileShaderObject e so programLog w =
     (if assert_fails e (srcText so \<noteq> '''') then Inl AssertionFailed
      else
        let sources = shader_sources so;
            cso_id = gl_new_shader e (gl_calls w);
            w = gl_do (GlCreateShader (so_type so) cso_id) w;
            w = gl_do (GlShaderSource cso_id sources) w;
            w = gl_do (GlCompileShader cso_id) w
        in (case glslIsValid e (gl_calls w) cso_id of
              Inl err \<Rightarrow> Inl err
            | Inr cso_valid \<Rightarrow>
                if \<not> cso_valid then
                  (case glslGetLog e (gl_calls w) cso_id of
                     Inl err \<Rightarrow> Inl err
                   | Inr shaderLog \<Rightarrow>
                       let shaderName = (if find_str ''void main()'' (srcData so) \<noteq> None
                                         then ''unknown'' else srcData so);
                           w = LOG_L L_WARNING
                                 (''[GLSL-SO::CreateAndCompileShaderObject] shader-object name: '' @
                                  shaderName @ '', compile-log:\<newline>'' @ shaderLog @ ''\<newline>'') w;
                           w = LOG_L L_WARNING (''\<newline>'' @ concat sources) w
                       in Inr (cso_id, cso_valid, programLog @ shaderLog,
                               gl_do (GlDeleteShader (cso_moved_id e cso_id)) w))
                else Inr (cso_id, cso_valid, programLog,
                          gl_do (GlDeleteShader (cso_moved_id e cso_id)) w)))"

text \<open>The loop of \<^verbatim>\<open>CreateAndLink\<close> over the shader objects. In
  \<^verbatim>\<open>auto cso = std::move(gso->CreateAndCompileShaderObject(log))\<close> the returned temporary
  is moved into \<open>cso\<close> and destroyed at the end of the statement, with the name the move
  left it; \<open>cso\<close> itself is destroyed at the end of the round, after the attachment if
  there is one. So each round calls \<^verbatim>\<open>glDeleteShader\<close> three times, counting the one
  inside \<^verbatim>\<open>CreateAndCompileShaderObject\<close>.\<close>

fun compile_each ::
  "'fl env \<Rightarrow> nat \<Rightarrow> shader_object list \<Rightarrow> bool \<Rightarrow> string \<Rightarrow> world \<Rightarrow>
   error + (bool \<times> string \<times> world)" where
  "compile_each e g [] shadersValid lg w = Inr (shadersValid, lg, w)"
| "compile_each e g (so # sos) shadersValid lg w =
     (case CreateAndCompileShaderObject e so lg w of
        Inl err \<Rightarrow> Inl err
      | Inr (cso_id, cso_valid, lg, w) \<Rightarrow>
          let w = gl_do (GlDeleteShader (cso_moved_id e cso_id)) w in
          if \<not> cso_valid then
            compile_each e g sos False lg (gl_do (GlDeleteShader cso_id) w)
          else
            compile_each e g sos shadersValid lg
              (gl_do (GlDeleteShader cso_id) (gl_do (GlAttachShader g cso_id) w)))"

definition CreateAndLink ::
  "'fl env \<Rightarrow> 'fl program_object \<Rightarrow> world \<Rightarrow> error + (bool \<times> 'fl program_object \<times> world)" where
  "CreateAndLink e po w =
     (if assert_fails e (glid po = 0) then Inl AssertionFailed
      else
        let g = gl_new_program e (gl_calls w);
            w = gl_do (GlCreateProgram g) w;
            po = po\<lparr>glid := g\<rparr>
        in if g = 0 then Inr (False, po, w)
           else
             (case compile_each e g (shaderObjs po) True (log po) w of
                Inl err \<Rightarrow> Inl err
              | Inr (shadersValid, lg, w) \<Rightarrow>
                  if \<not> shadersValid then Inr (False, po\<lparr>log := lg\<rparr>, w)
                  else
                    let w = gl_do (GlLinkProgram g) w in
                    (case glslGetLog e (gl_calls w) g of
                       Inl err \<Rightarrow> Inl err
                     | Inr linkLog \<Rightarrow>
                         (case glslIsValid e (gl_calls w) g of
                            Inl err \<Rightarrow> Inl err
                          | Inr linked \<Rightarrow> Inr (linked, po\<lparr>log := lg @ linkLog\<rparr>, w)))))"

definition Validate ::
  "'fl env \<Rightarrow> 'fl program_object \<Rightarrow> world \<Rightarrow> error + (bool \<times> 'fl program_object \<times> world)" where
  "Validate e po w =
     (let w = gl_do (GlValidateProgram (glid po)) w;
          validated = gl_validate_status e (gl_calls w) (glid po)
      in (case glslGetLog e (gl_calls w) (glid po) of
            Inl err \<Rightarrow> Inl err
          | Inr vlog \<Rightarrow> Inr (validated, po\<lparr>log := log po @ vlog\<rparr>, w)))"

text \<open>Modelled from the spec: \<^verbatim>\<open>GLSLCopyState\<close> (GLSLCopyState.cpp) is not among the
  sources. The spec's words: it copies the recognised uniform state over from the old
  program by name; each uniform is re-resolved to its (possibly different) location in the
  new program and its value rewritten to the GPU where it differs. The table keeps every
  entry and its cached value; each location becomes the new program's answer for the
  entry's name. The GPU side is one entry of the call list.\<close>

definition GLSLCopyState ::
  "'fl env \<Rightarrow> nat \<Rightarrow> nat \<Rightarrow> (nat \<rightharpoonup> uniform_state) \<Rightarrow> world \<Rightarrow>
   (nat \<rightharpoonup> uniform_state) \<times> world" where
  "GLSLCopyState e tgtProgID srcProgID states w =
     (let w = gl_do (GlslCopyState tgtProgID srcProgID) w
      in (map_option
            (\<lambda>us. SetLocation (gl_uniform_location e (gl_calls w) tgtProgID (us_name us)) us) \<circ>
          states, w))"

definition ValidateAndCopyUniforms ::
  "'fl env \<Rightarrow> nat \<Rightarrow> nat \<Rightarrow> bool \<Rightarrow> 'fl program_object \<Rightarrow> world \<Rightarrow>
   error + (bool \<times> 'fl program_object \<times> world)" where
  "ValidateAndCopyUniforms e tgtProgID srcProgID validate po w =
     (case (if validate then Validate e po w else Inr (valid po, po, w)) of
        Inl err \<Rightarrow> Inl err
      | Inr (isValid, po, w) \<Rightarrow>
          if isValid then
            let (states, w) = GLSLCopyState e tgtProgID srcProgID (uniformStates po) w
            in Inr (True, po\<lparr>uniformStates := states\<rparr>, w)
          else
            Inr (False, po,
                 if log po \<noteq> '''' then
                   LOG_L L_WARNING
                     (''[GLSL-PO::ValidateAndCopyUniforms][validation-log (program-object='' @
                      po_name po @ '')]\<newline>'' @ log po @ ''\<newline>'') w
                 else w))"

section \<open>Reloading\<close>

text \<open>\<^verbatim>\<open>UpdateProg(hash)\<close> of \<^verbatim>\<open>Reload\<close>: take the cached handle for the hash when the
  cache is used and has one, create and link otherwise.\<close>

definition UpdateProg ::
  "'fl env \<Rightarrow> bool \<Rightarrow> 'fl program_object \<Rightarrow> world \<Rightarrow>
   error + (bool \<times> 'fl program_object \<times> world)" where
  "UpdateProg e useCache po w =
     (let po = po\<lparr>glid := (if useCache then Find (shaderCache w) (hash po) else 0)\<rparr>
      in if glid po \<noteq> 0 then Inr (True, po, w) else CreateAndLink e po w)"

text \<open>\<^verbatim>\<open>Reload(force, validate)\<close>. The validity flag becomes the result of
  \<^verbatim>\<open>UpdateProg\<close>: \<^verbatim>\<open>ValidateAndCopyUniforms\<close> runs only when that result is true, and
  its own result is discarded (\<^verbatim>\<open>|| true\<close>).\<close>

definition Reload ::
  "'fl env \<Rightarrow> bool \<Rightarrow> bool \<Rightarrow> 'fl program_object \<Rightarrow> world \<Rightarrow>
   error + ('fl program_object \<times> world)" where
  "Reload e force validate po w =
     (let glid0 = glid po;
          hash0 = hash po;
          isValid = valid po;
          useCache = (isValid \<and> UseShaderCache e);
          (nonEmpty, po, w) = ReloadState e (force \<or> \<not> isValid \<or> glid0 = 0) po w
      in if \<not> nonEmpty then Inr (po\<lparr>valid := False\<rparr>, w)
         else
           (case UpdateProg e useCache po w of
              Inl err \<Rightarrow> Inl err
            | Inr (updated, po, w) \<Rightarrow>
                (case (if updated then
                         ValidateAndCopyUniforms e (glid po) (if isValid then glid0 else 0)
                           validate po w
                       else Inr (False, po, w)) of
                   Inl err \<Rightarrow> Inl err
                 | Inr (_, po, w) \<Rightarrow>
                     let po = po\<lparr>valid := updated\<rparr>;
                         (cache, pushed) =
                           (if useCache then Push (shaderCache w) hash0 glid0
                            else (shaderCache w, False));
                         w = w\<lparr>shaderCache := cache\<rparr>
                     in if useCache \<and> pushed then Inr (po, w)
                        else if hash po = hash0 then Inr (po, w)
                        else Inr (po, gl_do (GlDeleteProgram glid0) w))))"

definition MaybeReload ::
  "'fl env \<Rightarrow> bool \<Rightarrow> 'fl program_object \<Rightarrow> world \<Rightarrow> error + ('fl program_object \<times> world)" where
  "MaybeReload e validate po w =
     (if flags_HashSet e (shaderFlags po) \<and> \<not> flags_Updated e (shaderFlags po) then Inr (po, w)
      else Reload e (\<not> flags_HashSet e (shaderFlags po)) validate po w)"

definition Enable ::
  "'fl env \<Rightarrow> 'fl program_object \<Rightarrow> world \<Rightarrow> error + ('fl program_object \<times> world)" where
  "Enable e po w =
     (case MaybeReload e True po w of
        Inl err \<Rightarrow> Inl err
      | Inr (po, w) \<Rightarrow> Inr (IProgramObject_Enable po, gl_do (GlUseProgram (glid po)) w))"

definition Disable :: "'fl program_object \<Rightarrow> world \<Rightarrow> 'fl program_object \<times> world" where
  "Disable po w = (IProgramObject_Disable po, gl_do (GlUseProgram 0) w)"

text \<open>\<^verbatim>\<open>Release(deleteShaderObjs)\<close>: freeing the shader objects' memory and clearing the
  texture bindings are not modelled.\<close>

definition Release ::
  "'fl env \<Rightarrow> 'fl program_object \<Rightarrow> world \<Rightarrow> 'fl program_object \<times> world" where
  "Release e po w =
     (let glid0 = glid po;
          po = IProgramObject_Release po;
          w = gl_do (GlDeleteProgram glid0) w
      in (po\<lparr>shaderFlags := flags_Clear e (shaderFlags po)\<rparr>, w))"

section \<open>Setting uniforms\<close>

text \<open>\<^verbatim>\<open>GetNewUniformState(name)\<close>: \<^verbatim>\<open>emplace\<close> keeps an entry that is already there;
  the location of the entry is then resolved. A new state has no value yet.\<close>

definition GetNewUniformState ::
  "'fl env \<Rightarrow> string \<Rightarrow> 'fl program_object \<Rightarrow> world \<Rightarrow> nat \<times> 'fl program_object" where
  "GetNewUniformState e name po w =
     (let h = hashString e name;
          us = (case uniformStates po h of
                  Some us \<Rightarrow> us
                | None \<Rightarrow> \<lparr>us_name = name, us_location = GL_INVALID_INDEX, us_value = None\<rparr>);
          us = SetLocation (gl_uniform_location e (gl_calls w) (glid po) name) us
      in (h, po\<lparr>uniformStates := (uniformStates po)(h \<mapsto> us)\<rparr>))"

text \<open>Modelled from the spec: \<^verbatim>\<open>GetUniformState\<close> and \<^verbatim>\<open>GetUniformLocation\<close> (Shader.h)
  are not among the sources; they look the named uniform's state up and create it when it is
  not there.\<close>

definition GetUniformState ::
  "'fl env \<Rightarrow> string \<Rightarrow> 'fl program_object \<Rightarrow> world \<Rightarrow> nat \<times> 'fl program_object" where
  "GetUniformState e name po w =
     (if uniformStates po (hashString e name) \<noteq> None then (hashString e name, po)
      else GetNewUniformState e name po w)"

definition SetUniformLocation ::
  "'fl env \<Rightarrow> string \<Rightarrow> 'fl program_object \<Rightarrow> world \<Rightarrow> 'fl program_object" where
  "SetUniformLocation e name po w =
     (let po = po\<lparr>uniformLocs := uniformLocs po @ [hashString e name]\<rparr>
      in snd (GetUniformState e name po w))"

text \<open>The seventeen \<^verbatim>\<open>SetUniform*(UniformState* uState, ...)\<close> have one body, up to the
  \<^verbatim>\<open>Set\<close> variant and the \<^verbatim>\<open>glUniform\<close> call, which the argument names. The pointer is
  the key of the state in the program's table.\<close>

definition SetUniform ::
  "'fl env \<Rightarrow> nat \<Rightarrow> uniform_args \<Rightarrow> 'fl program_object \<Rightarrow> world \<Rightarrow>
   error + ('fl program_object \<times> world)" where
  "SetUniform e uState v po w =
     (if assert_fails e (bound po) then Inl AssertionFailed
      else
        (case uniformStates po uState of
           None \<Rightarrow> Inl DanglingUniformState
         | Some us \<Rightarrow>
             let (us, write) = Set_value v us;
                 po = po\<lparr>uniformStates := (uniformStates po)(uState \<mapsto> us)\<rparr>
             in if write then Inr (po, gl_do (GlUniform (us_location us) v) w)
                else Inr (po, w)))"

text \<open>The seventeen index-based setters (\<^verbatim>\<open>SetUniform1i\<close>, ..., \<^verbatim>\<open>SetUniformMatrix4fv\<close>)
  have one body as well. An index outside \<^verbatim>\<open>uniformLocs\<close> is undefined in the source.\<close>

definition SetUniformIdx ::
  "'fl env \<Rightarrow> int \<Rightarrow> uniform_args \<Rightarrow> 'fl program_object \<Rightarrow> world \<Rightarrow>
   error + ('fl program_object \<times> world)" where
  "SetUniformIdx e idx v po w =
     (if assert_fails e (bound po) then Inl AssertionFailed
      else if idx < 0 \<or> int (length (uniformLocs po)) \<le> idx then Inl IndexOutOfRange
      else
        (case uniformStates po (uniformLocs po ! nat idx) of
           None \<Rightarrow> Inr (po, w)
         | Some us \<Rightarrow>
             let (us, write) = Set_value v us;
                 po = po\<lparr>uniformStates := (uniformStates po)(uniformLocs po ! nat idx \<mapsto> us)\<rparr>
             in if write then Inr (po, gl_do (GlUniform (us_location us) v) w)
                else Inr (po, w)))"

definition SetUniform1i ::
  "'fl env \<Rightarrow> int \<Rightarrow> int \<Rightarrow> 'fl program_object \<Rightarrow> world \<Rightarrow> error + ('fl program_object \<times> world)" where
  "SetUniform1i e idx v0 = SetUniformIdx e idx (U1i v0)"

definition SetUniform3fv ::
  "'fl env \<Rightarrow> int \<Rightarrow> glfloat list \<Rightarrow> 'fl program_object \<Rightarrow> world \<Rightarrow>
   error + ('fl program_object \<times> world)" where
  "SetUniform3fv e idx v = SetUniformIdx e idx (U3fv v)"

section \<open>A sample environment\<close>

text \<open>A concrete instance of the parameters, for the examples: definition flags that record
  whether their hash is set and whether they changed; a file system with one shader file;
  compiled objects that hold the name 0 once moved from; and a driver that hands out fresh
  object names, knows the shaders and programs it created (and the program 100 created
  before), rejects a shader exactly when the strings it was last given contain an
  \<^verbatim>\<open>#error\<close> directive, links and validates every program, and knows the uniform
  \<^verbatim>\<open>color\<close> at location 3.\<close>

record sample_flags =
  sf_defs :: string
  sf_hash_set :: bool
  sf_updated :: bool

fun creates_shader :: "nat \<Rightarrow> gl_call \<Rightarrow> bool" where
  "creates_shader obj (GlCreateShader ty i) = (i = obj)"
| "creates_shader obj c = False"

fun creates_program :: "nat \<Rightarrow> gl_call \<Rightarrow> bool" where
  "creates_program obj (GlCreateProgram g) = (g = obj)"
| "creates_program obj c = False"

text \<open>The strings a shader name was last given by \<^verbatim>\<open>glShaderSource\<close>.\<close>

fun shader_strings :: "nat \<Rightarrow> gl_call list \<Rightarrow> string list" where
  "shader_strings obj [] = []"
| "shader_strings obj (GlShaderSource i srcs # cs) =
     (if i = obj \<and> shader_strings obj cs = [] then srcs else shader_strings obj cs)"
| "shader_strings obj (c # cs) = shader_strings obj cs"

definition sample_env :: "sample_flags env" where
  "sample_env =
     \<lparr>NDEBUG = False,
      HsiehHash = (\<lambda>s h. 31 * h + of_nat (length s)),
      hashString = length,
      fileSystem = (\<lambda>path. if path = ''shaders/a.glsl'' then Some ''void main() { }'' else None),
      UseShaderCache = True,
      flags_HashSet = sf_hash_set,
      flags_Updated = sf_updated,
      flags_UpdateHash =
        (\<lambda>fl. (fl\<lparr>sf_hash_set := True, sf_updated := False\<rparr>, of_nat (length (sf_defs fl)))),
      flags_GetString = sf_defs,
      flags_Clear = (\<lambda>fl. \<lparr>sf_defs = '''', sf_hash_set = False, sf_updated = False\<rparr>),
      cso_moved_id = (\<lambda>obj. 0),
      gl_new_program = (\<lambda>calls. Suc (length calls)),
      gl_new_shader = (\<lambda>calls. Suc (length calls)),
      gl_is_shader = (\<lambda>calls obj. list_ex (creates_shader obj) calls),
      gl_is_program = (\<lambda>calls obj. obj = 100 \<or> list_ex (creates_program obj) calls),
      gl_compile_status =
        (\<lambda>calls obj. find_str ''#error'' (concat (shader_strings obj calls)) = None),
      gl_shader_log =
        (\<lambda>calls obj. if find_str ''#error'' (concat (shader_strings obj calls)) = None then ''''
                      else ''ERROR: #error directive''),
      gl_link_status = (\<lambda>calls g. True),
      gl_program_log = (\<lambda>calls g. ''''),
      gl_validate_status = (\<lambda>calls g. True),
      gl_uniform_location = (\<lambda>calls g name. if name = ''color'' then 3 else - 1)\<rparr>"

definition sample_world :: world where
  "sample_world = \<lparr>gl_calls = [], shaderCache = Map.empty, engine_log = []\<rparr>"

text \<open>A program with one inline vertex shader, and the uniform \<^verbatim>\<open>color\<close> set to
  \<open>(1, 0, 0)\<close> (\<open>0x3F800000\<close> is the pattern of \<open>1.0f\<close>); its flags have changed since the
  last reload.\<close>

definition sample_program :: "string \<Rightarrow> sample_flags program_object" where
  "sample_program src =
     \<lparr>po_name = ''tree'', glid = 100, hash = 0, valid = False, bound = False,
      shaderObjs = [\<lparr>so_type = 35633, srcData = src, srcText = src,
                     rawDefStrs = '''', modDefStrs = ''''\<rparr>],
      uniformStates = [5 \<mapsto> \<lparr>us_name = ''color'', us_location = 3,
                                us_value = Some (U3f 0x3F800000 0 0)\<rparr>],
      uniformLocs = [5],
      log = '''',
      shaderFlags = \<lparr>sf_defs = '''', sf_hash_set = True, sf_updated = True\<rparr>\<rparr>"
section \<open>Reading results\<close>

text \<open>The calls that create, fill, compile, attach and delete shader objects.\<close>

fun is_shader_call :: "gl_call \<Rightarrow> bool" where
  "is_shader_call (GlCreateShader ty obj) = True"
| "is_shader_call (GlShaderSource obj srcs) = True"
| "is_shader_call (GlCompileShader obj) = True"
| "is_shader_call (GlAttachShader g obj) = True"
| "is_shader_call (GlDeleteShader obj) = True"
| "is_shader_call c = False"

fun is_copy_call :: "gl_call \<Rightarrow> bool" where
  "is_copy_call (GlslCopyState tgt src) = True"
| "is_copy_call c = False"

text \<open>The program object and the world of a call that returned.\<close>

definition result_program ::
  "error + ('fl program_object \<times> world) \<Rightarrow> 'fl program_object option" where
  "result_program r = (case r of Inl err \<Rightarrow> None | Inr (po, w) \<Rightarrow> Some po)"

definition result_world :: "error + ('fl program_object \<times> world) \<Rightarrow> world option" where
  "result_world r = (case r of Inl err \<Rightarrow> None | Inr (po, w) \<Rightarrow> Some w)"

text \<open>The program with the cached value of the uniform state under key \<open>k\<close> replaced.\<close>

definition set_cached ::
  "nat \<Rightarrow> uniform_state \<Rightarrow> uniform_args \<Rightarrow> 'fl program_object \<Rightarrow> 'fl program_object" where
  "set_cached k us v po = po\<lparr>uniformStates := (uniformStates po)(k \<mapsto> us\<lparr>us_value := Some v\<rparr>)\<rparr>"


section \<open>The hash of a shader object\<close>

text \<open>\<^verbatim>\<open>GetHash\<close> reads the source text and the two definition strings only, whatever
  \<^verbatim>\<open>HsiehHash\<close> is.\<close>

lemma GetHash_fields:
  "srcText a = srcText b \<Longrightarrow> modDefStrs a = modDefStrs b \<Longrightarrow> rawDefStrs a = rawDefStrs b \<Longrightarrow>
   GetHash e a = GetHash e b"
  by (simp add: GetHash_def)

section \<open>Searching a string\<close>

lemma find_str_SomeD:
  "find_str pat s = Some i \<Longrightarrow> i \<le> length s \<and> prefix pat (drop i s)"
proof (induction s arbitrary: i)
  case Nil
  then show ?case by (simp split: if_splits)
next
  case (Cons c cs)
  show ?case
  proof (cases "prefix pat (c # cs)")
    case True
    with Cons.prems show ?thesis by simp
  next
    case False
    with Cons.prems obtain j where j: "find_str pat cs = Some j" "i = Suc j"
      by auto
    from Cons.IH [OF j(1)] j(2) show ?thesis by simp
  qed
qed

lemma find_str_char:
  "find_str [c] s = (if c \<in> set s then Some (length (takeWhile (\<lambda>x. x \<noteq> c) s)) else None)"
  by (induction s) auto

lemma find_from_char:
  assumes "pos \<le> length s"
  shows "find_from s [c] pos =
     (if c \<in> set (drop pos s) then Some (pos + length (takeWhile (\<lambda>x. x \<noteq> c) (drop pos s))) else None)"
  using assms by (simp add: find_from_def find_str_char)

lemma takeWhile_length_lt:
  "c \<in> set xs \<Longrightarrow> length (takeWhile (\<lambda>x. x \<noteq> c) xs) < length xs"
  by (induction xs) auto

lemma take_Suc_takeWhile:
  "c \<in> set xs \<Longrightarrow>
   take (Suc (length (takeWhile (\<lambda>x. x \<noteq> c) xs))) xs =
   takeWhile (\<lambda>x. x \<noteq> c) xs @ take 1 (dropWhile (\<lambda>x. x \<noteq> c) xs)"
  by (induction xs) auto

lemma drop_Suc_takeWhile:
  "drop (Suc (length (takeWhile (\<lambda>x. x \<noteq> c) xs))) xs = drop 1 (dropWhile (\<lambda>x. x \<noteq> c) xs)"
  by (induction xs) auto

lemma dropWhile_notin:
  "c \<notin> set xs \<Longrightarrow> dropWhile (\<lambda>x. x \<noteq> c) xs = [] \<and> takeWhile (\<lambda>x. x \<noteq> c) xs = xs"
  by (induction xs) auto

lemma mod_wrap: "(a::nat) < m \<Longrightarrow> (a + m) mod m = a"
  by simp

lemma ExtractVersionDirective_eol:
  assumes len: "length src < size_t_mod"
    and pos: "find_str ''#version '' src = Some pos"
    and eol: "CHR ''\<newline>'' \<in> set (drop pos src)"
  shows "ExtractVersionDirective src version = (without_directive src, directive_of src, True)"
proof -
  let ?rest = "drop pos src"
  let ?k = "length (takeWhile (\<lambda>x. x \<noteq> CHR ''\<newline>'') ?rest)"
  from find_str_SomeD [OF pos] have ple: "pos \<le> length src" by simp
  have k: "?k < length ?rest" using eol by (rule takeWhile_length_lt)
  then have bound: "pos + ?k + 1 < size_t_mod" using len ple by simp
  have f: "find_from src ''\<newline>'' pos = Some (pos + ?k)"
    using eol ple by (simp add: find_from_char)
  have eol_val: "(size_t_of (find_from src ''\<newline>'' pos) + 1) mod size_t_mod = pos + ?k + 1"
    using bound by (simp add: f size_t_of_def)
  have n_val: "(pos + ?k + 1 + size_t_mod - pos) mod size_t_mod = Suc ?k"
  proof -
    have e: "pos + ?k + 1 + size_t_mod - pos = Suc ?k + size_t_mod" by simp
    have "Suc ?k < size_t_mod" using bound by simp
    then have "(Suc ?k + size_t_mod) mod size_t_mod = Suc ?k" by (rule mod_wrap)
    with e show ?thesis by (simp only:)
  qed
  have sub: "substr src pos (Suc ?k) = directive_of src"
    using eol by (simp add: substr_def directive_of_def pos take_Suc_takeWhile)
  have "drop (pos + Suc ?k) src = drop (Suc ?k) ?rest"
    by (simp add: add.commute)
  then have er: "erase src pos (Suc ?k) = without_directive src"
    by (simp add: erase_def without_directive_def pos drop_Suc_takeWhile del: drop_drop)
  show ?thesis
    unfolding ExtractVersionDirective_def pos option.case Let_def eol_val n_val sub er ..
qed

lemma ExtractVersionDirective_no_eol:
  assumes len: "length src < size_t_mod"
    and pos: "find_str ''#version '' src = Some pos"
    and eol: "CHR ''\<newline>'' \<notin> set (drop pos src)"
    and nz: "0 < pos"
  shows "ExtractVersionDirective src version = (without_directive src, directive_of src, True)"
proof -
  from find_str_SomeD [OF pos] have ple: "pos \<le> length src" by simp
  have f: "find_from src ''\<newline>'' pos = None"
    using eol ple by (simp add: find_from_char)
  have eol_val: "(size_t_of (find_from src ''\<newline>'' pos) + 1) mod size_t_mod = 0"
    by (simp add: f size_t_of_def npos_def size_t_mod_def)
  have n_val: "(0 + size_t_mod - pos) mod size_t_mod = size_t_mod - pos"
    using nz by (simp add: size_t_mod_def)
  have big: "length (drop pos src) \<le> size_t_mod - pos"
    using len by simp
  have sub: "substr src pos (size_t_mod - pos) = directive_of src"
    using eol big by (simp add: substr_def directive_of_def pos dropWhile_notin)
  have er: "erase src pos (size_t_mod - pos) = without_directive src"
    using eol len ple by (simp add: erase_def without_directive_def pos dropWhile_notin)
  show ?thesis
    unfolding ExtractVersionDirective_def pos option.case Let_def eol_val n_val sub er ..
qed

lemma ExtractVersionDirective_wrap_zero:
  assumes pos: "find_str ''#version '' src = Some 0"
    and eol: "CHR ''\<newline>'' \<notin> set src"
  shows "ExtractVersionDirective src version = (src, '''', True)"
proof -
  have f: "find_from src ''\<newline>'' 0 = None"
    using eol by (simp add: find_from_char)
  have eol_val: "(size_t_of (find_from src ''\<newline>'' 0) + 1) mod size_t_mod = 0"
    by (simp add: f size_t_of_def npos_def size_t_mod_def)
  show ?thesis
    unfolding ExtractVersionDirective_def pos option.case Let_def eol_val
    by (simp add: substr_def erase_def)
qed


lemma find_str_NoneD:
  "find_str pat s = None \<Longrightarrow> \<not> prefix pat (drop i s)"
proof (induction s arbitrary: i)
  case Nil
  then show ?case by (simp split: if_splits)
next
  case (Cons c cs)
  then show ?case by (cases i) (auto split: if_splits)
qed

lemma find_str_first:
  "find_str pat s = Some i \<Longrightarrow> j < i \<Longrightarrow> \<not> prefix pat (drop j s)"
proof (induction s arbitrary: i j)
  case Nil
  then show ?case by (simp split: if_splits)
next
  case (Cons c cs)
  then show ?case by (cases j) (auto split: if_splits)
qed

lemma find_str_None_iff:
  "find_str pat s = None \<longleftrightarrow> (\<forall>pre post. s \<noteq> pre @ pat @ post)"
proof
  assume n: "find_str pat s = None"
  show "\<forall>pre post. s \<noteq> pre @ pat @ post"
  proof (intro allI notI)
    fix pre post
    assume "s = pre @ pat @ post"
    then have "prefix pat (drop (length pre) s)" by simp
    with find_str_NoneD [OF n] show False by blast
  qed
next
  assume a: "\<forall>pre post. s \<noteq> pre @ pat @ post"
  show "find_str pat s = None"
  proof (rule ccontr)
    assume "find_str pat s \<noteq> None"
    then obtain i where "find_str pat s = Some i" by auto
    from find_str_SomeD [OF this] obtain post where "drop i s = pat @ post"
      by (auto simp: prefix_def)
    then have "s = take i s @ pat @ post"
      by (metis append_take_drop_id)
    with a show False by blast
  qed
qed

lemma find_str_append_contains:
  assumes "find_str pat a \<noteq> None \<or> find_str pat b \<noteq> None"
  shows "find_str pat (a @ sep @ b) \<noteq> None"
proof -
  from assms obtain pre post where "a = pre @ pat @ post \<or> b = pre @ pat @ post"
    by (auto simp: find_str_None_iff)
  then have "a @ sep @ b = pre @ pat @ (post @ sep @ b) \<or> a @ sep @ b = (a @ sep @ pre) @ pat @ post"
    by auto
  then show ?thesis
    unfolding find_str_None_iff by blast
qed

lemma ExtractVersionDirective_defFlags:
  assumes defs: "find_str ''#version '' rawd \<noteq> None \<or> find_str ''#version '' modd \<noteq> None"
    and len: "length rawd + length modd + 1 < size_t_mod"
  shows "ExtractVersionDirective (rawd @ ''\<newline>'' @ modd) version =
           (without_directive (rawd @ ''\<newline>'' @ modd), directive_of (rawd @ ''\<newline>'' @ modd), True)"
proof -
  let ?d = "rawd @ ''\<newline>'' @ modd"
  from find_str_append_contains [OF defs, where sep = "''\<newline>''"] obtain pos where pos: "find_str ''#version '' ?d = Some pos"
    by auto
  have l: "length ?d < size_t_mod" using len by simp
  show ?thesis
  proof (cases "pos \<le> length rawd")
    case True
    then have "CHR ''\<newline>'' \<in> set (drop pos ?d)" by simp
    then show ?thesis by (rule ExtractVersionDirective_eol [OF l pos])
  next
    case False
    then have nz: "0 < pos" by simp
    show ?thesis
    proof (cases "CHR ''\<newline>'' \<in> set (drop pos ?d)")
      case True
      then show ?thesis by (rule ExtractVersionDirective_eol [OF l pos])
    next
      case False
      then show ?thesis by (rule ExtractVersionDirective_no_eol [OF l pos _ nz])
    qed
  qed
qed

lemma ExtractVersionDirective_source:
  assumes src: "find_str ''#version '' s \<noteq> None"
    and len: "length s < size_t_mod"
  shows "ExtractVersionDirective s version =
           (if find_str ''#version '' s = Some 0 \<and> CHR ''\<newline>'' \<notin> set s
            then (s, '''', True)
            else (without_directive s, directive_of s, True))"
proof -
  from src obtain pos where pos: "find_str ''#version '' s = Some pos" by auto
  show ?thesis
  proof (cases "CHR ''\<newline>'' \<in> set (drop pos s)")
    case True
    then have n: "\<not> (find_str ''#version '' s = Some 0 \<and> CHR ''\<newline>'' \<notin> set s)"
      by (auto dest: in_set_dropD)
    show ?thesis
      by (simp only: ExtractVersionDirective_eol [OF len pos True] n if_False)
  next
    case False
    show ?thesis
    proof (cases "pos = 0")
      case True
      with pos False ExtractVersionDirective_wrap_zero [of s version] show ?thesis by simp
    next
      case False
      with pos ExtractVersionDirective_no_eol [OF len pos \<open>CHR ''\<newline>'' \<notin> set (drop pos s)\<close>]
      show ?thesis by simp
    qed
  qed
qed

lemma directive_of_prefix:
  "find_str ''#version '' s \<noteq> None \<Longrightarrow> prefix ''#version '' (directive_of s)"
proof -
  assume "find_str ''#version '' s \<noteq> None"
  then obtain pos where pos: "find_str ''#version '' s = Some pos" by auto
  from find_str_SomeD [OF pos] obtain post where d: "drop pos s = ''#version '' @ post"
    by (auto simp: prefix_def)
  show ?thesis
    by (simp add: directive_of_def pos d)
qed

section \<open>The assembled shader source\<close>

text \<open>
  Claim C7. When the source text and the definition strings both hold a version directive,
  the second entry of the strings handed to the compiler (the version line) is the directive
  of the definitions \<open>rawDefStrs + "\n" + modDefStrs\<close>, closed by a line end; it starts
  with \<^verbatim>\<open>#version \<close> and does not depend on the source text. The strings are, in order: a comment line, the version line, a
  comment line, the definitions without their directive, a comment line, the
  \<^verbatim>\<open>#line 1\<close> reset and the source text without its own directive. (A source that
  starts with its directive and has no line end at all keeps it: the count wraps around
  to 0 there.) The length bounds state that the strings fit a 64-bit \<^verbatim>\<open>size_t\<close>.
\<close>

theorem version_directive_precedence:
  assumes src: "find_str ''#version '' (srcText so) \<noteq> None"
    and defs: "find_str ''#version '' (rawDefStrs so) \<noteq> None \<or>
               find_str ''#version '' (modDefStrs so) \<noteq> None"
    and len: "length (srcText so) < size_t_mod"
             "length (rawDefStrs so) + length (modDefStrs so) + 1 < size_t_mod"
  shows "shader_sources so =
     [''// SHADER VERSION\<newline>'',
      EnsureEndsWith (directive_of (rawDefStrs so @ ''\<newline>'' @ modDefStrs so)) ''\<newline>'',
      ''// SHADER FLAGS\<newline>'',
      (if without_directive (rawDefStrs so @ ''\<newline>'' @ modDefStrs so) \<noteq> ''''
       then EnsureEndsWith (without_directive (rawDefStrs so @ ''\<newline>'' @ modDefStrs so)) ''\<newline>''
       else ''''),
      ''// SHADER SOURCE\<newline>'',
      ''#line 1\<newline>'',
      (if find_str ''#version '' (srcText so) = Some 0 \<and> CHR ''\<newline>'' \<notin> set (srcText so)
       then srcText so else without_directive (srcText so))] \<and>
     prefix ''#version '' (directive_of (rawDefStrs so @ ''\<newline>'' @ modDefStrs so))"
proof -
  let ?d = "rawDefStrs so @ ''\<newline>'' @ modDefStrs so"
  have ne: "directive_of ?d \<noteq> ''''"
    using directive_of_prefix [OF find_str_append_contains [OF defs, where sep = "''\<newline>''"]]
    by (auto simp: prefix_def)
  have "shader_sources so =
     [''// SHADER VERSION\<newline>'',
      EnsureEndsWith (directive_of ?d) ''\<newline>'',
      ''// SHADER FLAGS\<newline>'',
      (if without_directive ?d \<noteq> '''' then EnsureEndsWith (without_directive ?d) ''\<newline>'' else ''''),
      ''// SHADER SOURCE\<newline>'',
      ''#line 1\<newline>'',
      (if find_str ''#version '' (srcText so) = Some 0 \<and> CHR ''\<newline>'' \<notin> set (srcText so)
       then srcText so else without_directive (srcText so))]"
    unfolding shader_sources_def Let_def
      ExtractVersionDirective_source [OF src len(1)]
      ExtractVersionDirective_defFlags [OF defs len(2)]
    using ne by (simp split: if_splits)
  with directive_of_prefix [OF find_str_append_contains [OF defs, where sep = "''\<newline>''"]]
  show ?thesis by (simp only: simp_thms)
qed

theorem version_directive_precedence_witness:
  "find_str ''#version '' ''#version 120\<newline>void main() {}'' \<noteq> None \<and>
   find_str ''#version '' ''#version 130'' \<noteq> None \<and>
   shader_sources \<lparr>so_type = 1, srcData = ''tree.glsl'',
       srcText = ''#version 120\<newline>void main() {}'',
       rawDefStrs = ''#define X'', modDefStrs = ''#version 130''\<rparr> =
     [''// SHADER VERSION\<newline>'', ''#version 130\<newline>'', ''// SHADER FLAGS\<newline>'',
      ''#define X\<newline>'', ''// SHADER SOURCE\<newline>'', ''#line 1\<newline>'', ''void main() {}'']"
  using version_directive_precedence [of "\<lparr>so_type = 1, srcData = ''tree.glsl'',
       srcText = ''#version 120\<newline>void main() {}'',
       rawDefStrs = ''#define X'', modDefStrs = ''#version 130''\<rparr>"]
  by (simp add: directive_of_def without_directive_def EnsureEndsWith_def suffix_to_prefix
      size_t_mod_def)

lemma contains_iff_find_str:
  "(\<exists>pre post. s = pre @ pat @ post) \<longleftrightarrow> find_str pat s \<noteq> None"
  by (simp add: find_str_None_iff)

section \<open>Resolving a shader object's source\<close>

text \<open>
  Claim C9. \<^verbatim>\<open>ReloadFromTextOrFile\<close> stores the resolved text and returns whether it
  differs from the stored source text. The resolved text is the descriptor itself when the
  descriptor contains \<^verbatim>\<open>void main()\<close>; otherwise the content of the file
  \<^verbatim>\<open>shaders/<descriptor>\<close>; and when that file does not exist, the empty string,
  with one error logged.
\<close>

theorem ReloadFromTextOrFile_resolution:
  "((\<exists>pre post. srcData so = pre @ ''void main()'' @ post) \<longrightarrow>
      ReloadFromTextOrFile fs so = (so\<lparr>srcText := srcData so\<rparr>, srcData so \<noteq> srcText so, [])) \<and>
   (\<not> (\<exists>pre post. srcData so = pre @ ''void main()'' @ post) \<longrightarrow>
      (case fs (''shaders/'' @ srcData so) of
         Some content \<Rightarrow>
           ReloadFromTextOrFile fs so = (so\<lparr>srcText := content\<rparr>, content \<noteq> srcText so, [])
       | None \<Rightarrow>
           ReloadFromTextOrFile fs so =
             (so\<lparr>srcText := ''''\<rparr>, srcText so \<noteq> '''',
              [(L_ERROR, ''[GetShaderSource] file '' @ [CHR 0x22] @ ''shaders/'' @ srcData so @
                         [CHR 0x22] @ '' not found'')])))"
  unfolding contains_iff_find_str
  by (auto simp: ReloadFromTextOrFile_def GetShaderSource_def Let_def split: option.splits)

theorem ReloadFromTextOrFile_resolution_witness:
  "ReloadFromTextOrFile
     (\<lambda>path. if path = ''shaders/a.glsl'' then Some ''void main() { }'' else None)
     \<lparr>so_type = 1, srcData = ''void main() {}'', srcText = ''void main() {}'',
      rawDefStrs = '''', modDefStrs = ''''\<rparr> =
     (\<lparr>so_type = 1, srcData = ''void main() {}'', srcText = ''void main() {}'',
      rawDefStrs = '''', modDefStrs = ''''\<rparr>, False, []) \<and>
   ReloadFromTextOrFile
     (\<lambda>path. if path = ''shaders/a.glsl'' then Some ''void main() { }'' else None)
     \<lparr>so_type = 1, srcData = ''a.glsl'', srcText = '''', rawDefStrs = '''', modDefStrs = ''''\<rparr> =
     (\<lparr>so_type = 1, srcData = ''a.glsl'', srcText = ''void main() { }'',
      rawDefStrs = '''', modDefStrs = ''''\<rparr>, True, []) \<and>
   ReloadFromTextOrFile
     (\<lambda>path. if path = ''shaders/a.glsl'' then Some ''void main() { }'' else None)
     \<lparr>so_type = 1, srcData = ''b.glsl'', srcText = ''x'', rawDefStrs = '''', modDefStrs = ''''\<rparr> =
     (\<lparr>so_type = 1, srcData = ''b.glsl'', srcText = '''', rawDefStrs = '''', modDefStrs = ''''\<rparr>,
      True, [(L_ERROR, ''[GetShaderSource] file '' @ [CHR 0x22] @ ''shaders/b.glsl'' @ [CHR 0x22] @ '' not found'')])"
  using
    ReloadFromTextOrFile_resolution [of
      "\<lparr>so_type = 1, srcData = ''void main() {}'', srcText = ''void main() {}'',
        rawDefStrs = '''', modDefStrs = ''''\<rparr>"
      "\<lambda>path. if path = ''shaders/a.glsl'' then Some ''void main() { }'' else None",
      unfolded contains_iff_find_str]
    ReloadFromTextOrFile_resolution [of
      "\<lparr>so_type = 1, srcData = ''a.glsl'', srcText = '''', rawDefStrs = '''', modDefStrs = ''''\<rparr>"
      "\<lambda>path. if path = ''shaders/a.glsl'' then Some ''void main() { }'' else None",
      unfolded contains_iff_find_str]
    ReloadFromTextOrFile_resolution [of
      "\<lparr>so_type = 1, srcData = ''b.glsl'', srcText = ''x'', rawDefStrs = '''', modDefStrs = ''''\<rparr>"
      "\<lambda>path. if path = ''shaders/a.glsl'' then Some ''void main() { }'' else None",
      unfolded contains_iff_find_str]
  by simp

section \<open>What a reload changes\<close>

lemma reload_each_length: "length (fst (reload_each fs sos)) = length sos"
  by (induction sos) (auto simp: Let_def split: prod.splits)

lemma ReloadState_fields:
  assumes "ReloadState e r po w = (ne, po1, w1)"
  shows "ne = (shaderObjs po \<noteq> [])" "po_name po1 = po_name po" "glid po1 = glid po"
    "valid po1 = valid po" "bound po1 = bound po" "uniformLocs po1 = uniformLocs po"
    "log po1 = ''''" "shaderFlags po1 = fst (flags_UpdateHash e (shaderFlags po))"
    "uniformStates po1 = map_option (SetLocation GL_INVALID_INDEX) \<circ> uniformStates po"
    "gl_calls w1 = gl_calls w" "shaderCache w1 = shaderCache w"
    "length (shaderObjs po1) = length (shaderObjs po)"
proof -
  have ne: "(fst (reload_each fs (map f sos)) \<noteq> []) = (sos \<noteq> [])" for fs f sos
    using reload_each_length [of fs "map f sos"] by (cases sos) auto
  note defs = ReloadState_def Let_def ClearUniformLocations_def SetShaderDefinitions_def
      ReloadShaderObjects_def RecalculateShaderHash_def
  show "ne = (shaderObjs po \<noteq> [])"
    using assms ne [of "fileSystem e" "SetDefinitions (flags_GetString e (shaderFlags po))" "shaderObjs po"]
    by (auto simp: defs split: prod.splits if_splits)
  show "length (shaderObjs po1) = length (shaderObjs po)"
    using assms
      reload_each_length [of "fileSystem e" "map (SetDefinitions (flags_GetString e (shaderFlags po))) (shaderObjs po)"]
    by (auto simp: defs split: prod.splits if_splits)
  show "po_name po1 = po_name po" "glid po1 = glid po"
    "valid po1 = valid po" "bound po1 = bound po" "uniformLocs po1 = uniformLocs po"
    "log po1 = ''''" "shaderFlags po1 = fst (flags_UpdateHash e (shaderFlags po))"
    "uniformStates po1 = map_option (SetLocation GL_INVALID_INDEX) \<circ> uniformStates po"
    "gl_calls w1 = gl_calls w" "shaderCache w1 = shaderCache w"
    using assms by (auto simp: defs split: prod.splits if_splits)
qed

lemma glslIsValid_cases:
  "glslIsValid e calls obj = Inl AssertionFailed \<or> (\<exists>b. glslIsValid e calls obj = Inr b)"
  by (simp add: glslIsValid_def)

lemma glslGetLog_cases:
  "glslGetLog e calls obj = Inl AssertionFailed \<or> (\<exists>l. glslGetLog e calls obj = Inr l)"
  by (simp add: glslGetLog_def)



lemma CreateAndLink_frame:
  assumes "CreateAndLink e po w = Inr (b, po', w')"
  shows "po_name po' = po_name po \<and>
         hash po' = hash po \<and>
         valid po' = valid po \<and>
         bound po' = bound po \<and>
         shaderObjs po' = shaderObjs po \<and>
         uniformStates po' = uniformStates po \<and>
         uniformLocs po' = uniformLocs po \<and>
         shaderFlags po' = shaderFlags po \<and>
         glid po' = gl_new_program e (gl_calls w)"
  using assms
  by (auto simp: CreateAndLink_def Let_def split: if_splits sum.splits prod.splits)


lemma UpdateProg_frame:
  assumes "UpdateProg e useCache po w = Inr (b, po', w')"
  shows "po_name po' = po_name po \<and>
         hash po' = hash po \<and>
         valid po' = valid po \<and>
         bound po' = bound po \<and>
         shaderObjs po' = shaderObjs po \<and>
         uniformStates po' = uniformStates po \<and>
         uniformLocs po' = uniformLocs po \<and>
         shaderFlags po' = shaderFlags po"
proof (cases "(if useCache then Find (shaderCache w) (hash po) else 0) = 0")
  case True
  with assms have "CreateAndLink e (po\<lparr>glid := 0\<rparr>) w = Inr (b, po', w')"
    by (simp add: UpdateProg_def Let_def)
  from CreateAndLink_frame [OF this] show ?thesis by simp
next
  case False
  with assms have "po' = po\<lparr>glid := (if useCache then Find (shaderCache w) (hash po) else 0)\<rparr>"
    by (simp add: UpdateProg_def Let_def)
  then show ?thesis by simp
qed


lemma ValidateAndCopyUniforms_frame:
  assumes "ValidateAndCopyUniforms e tgt src validate po w = Inr (b, po', w')"
  shows "po_name po' = po_name po \<and>
         glid po' = glid po \<and>
         hash po' = hash po \<and>
         valid po' = valid po \<and>
         bound po' = bound po \<and>
         shaderObjs po' = shaderObjs po \<and>
         uniformLocs po' = uniformLocs po \<and>
         shaderFlags po' = shaderFlags po \<and>
         shaderCache w' = shaderCache w"
  using assms
  by (cases validate)
     (auto simp: ValidateAndCopyUniforms_def Validate_def GLSLCopyState_def Let_def gl_do_def
        LOG_L_def split: prod.splits if_splits sum.splits)


lemma Reload_result:
  assumes r: "Reload e force validate po w = Inr (po', w')"
    and rs: "ReloadState e (force \<or> \<not> valid po \<or> glid po = 0) po w = (ne, po1, w1)"
  shows "(\<not> ne \<and> po' = po1\<lparr>valid := False\<rparr> \<and> w' = w1) \<or>
         (ne \<and> (\<exists>po2 w2.
            UpdateProg e (valid po \<and> UseShaderCache e) po1 w1 = Inr (False, po2, w2) \<and>
            po' = po2\<lparr>valid := False\<rparr> \<and>
            (gl_calls w' = gl_calls w2 \<or> gl_calls w' = gl_calls w2 @ [GlDeleteProgram (glid po)]))) \<or>
         (ne \<and> (\<exists>po2 w2 b po3 w3.
            UpdateProg e (valid po \<and> UseShaderCache e) po1 w1 = Inr (True, po2, w2) \<and>
            ValidateAndCopyUniforms e (glid po2) (if valid po then glid po else 0) validate po2 w2 =
              Inr (b, po3, w3) \<and>
            po' = po3\<lparr>valid := True\<rparr> \<and>
            (gl_calls w' = gl_calls w3 \<or> gl_calls w' = gl_calls w3 @ [GlDeleteProgram (glid po)])))"
proof (cases ne)
  case False
  with r rs show ?thesis by (simp add: Reload_def Let_def)
next
  case True
  with r rs obtain updated po2 w2 where
    up: "UpdateProg e (valid po \<and> UseShaderCache e) po1 w1 = Inr (updated, po2, w2)"
    by (auto simp: Reload_def Let_def split: sum.splits)
  show ?thesis
  proof (cases updated)
    case False
    with r rs True up have "po' = po2\<lparr>valid := False\<rparr>"
      "gl_calls w' = gl_calls w2 \<or> gl_calls w' = gl_calls w2 @ [GlDeleteProgram (glid po)]"
      by (auto simp: Reload_def Let_def gl_do_def split: prod.splits if_splits)
    moreover from up False have "UpdateProg e (valid po \<and> UseShaderCache e) po1 w1 = Inr (False, po2, w2)"
      by simp
    ultimately show ?thesis using True by blast
  next
    case u: True
    with r rs True up obtain b po3 w3 where
      vc: "ValidateAndCopyUniforms e (glid po2) (if valid po then glid po else 0) validate po2 w2 =
             Inr (b, po3, w3)"
      by (auto simp: Reload_def Let_def split: sum.splits)
    with r rs True up u have "po' = po3\<lparr>valid := True\<rparr>"
      "gl_calls w' = gl_calls w3 \<or> gl_calls w' = gl_calls w3 @ [GlDeleteProgram (glid po)]"
      by (auto simp: Reload_def Let_def gl_do_def split: prod.splits if_splits)
    moreover from up u have "UpdateProg e (valid po \<and> UseShaderCache e) po1 w1 = Inr (True, po2, w2)"
      by simp
    ultimately show ?thesis using True vc by blast
  qed
qed

lemma Reload_frame:
  assumes r: "Reload e force validate po w = Inr (po', w')"
  shows "po_name po' = po_name po \<and> bound po' = bound po \<and> uniformLocs po' = uniformLocs po \<and>
         shaderFlags po' = fst (flags_UpdateHash e (shaderFlags po))"
proof -
  obtain ne po1 w1 where rs: "ReloadState e (force \<or> \<not> valid po \<or> glid po = 0) po w = (ne, po1, w1)"
    by (cases "ReloadState e (force \<or> \<not> valid po \<or> glid po = 0) po w") auto
  note p1 = ReloadState_fields [OF rs]
  from Reload_result [OF r rs] consider
      (empty) "po' = po1\<lparr>valid := False\<rparr>"
    | (failed) po2 w2 where
        "UpdateProg e (valid po \<and> UseShaderCache e) po1 w1 = Inr (False, po2, w2)"
        "po' = po2\<lparr>valid := False\<rparr>"
    | (updated) po2 w2 b po3 w3 where
        "UpdateProg e (valid po \<and> UseShaderCache e) po1 w1 = Inr (True, po2, w2)"
        "ValidateAndCopyUniforms e (glid po2) (if valid po then glid po else 0) validate po2 w2 =
              Inr (b, po3, w3)"
        "po' = po3\<lparr>valid := True\<rparr>"
    by blast
  then show ?thesis
  proof cases
    case empty
    with p1 show ?thesis by simp
  next
    case failed
    with UpdateProg_frame [of e _ po1 w1 False po2 w2] p1 show ?thesis by simp
  next
    case updated
    with UpdateProg_frame [of e _ po1 w1 True po2 w2]
      ValidateAndCopyUniforms_frame [of e _ _ validate po2 w2 b po3 w3] p1
    show ?thesis by simp
  qed
qed

section \<open>The sample environment, field by field\<close>

lemma sample_env_simps:
  "NDEBUG sample_env = False"
  "HsiehHash sample_env = (\<lambda>s h. 31 * h + of_nat (length s))"
  "hashString sample_env = length"
  "fileSystem sample_env = (\<lambda>path. if path = ''shaders/a.glsl'' then Some ''void main() { }'' else None)"
  "UseShaderCache sample_env = True"
  "flags_HashSet sample_env = sf_hash_set"
  "flags_Updated sample_env = sf_updated"
  "flags_UpdateHash sample_env =
        (\<lambda>fl. (fl\<lparr>sf_hash_set := True, sf_updated := False\<rparr>, of_nat (length (sf_defs fl))))"
  "flags_GetString sample_env = sf_defs"
  "cso_moved_id sample_env = (\<lambda>obj. 0)"
  "gl_new_program sample_env = (\<lambda>calls. Suc (length calls))"
  "gl_new_shader sample_env = (\<lambda>calls. Suc (length calls))"
  "gl_is_shader sample_env = (\<lambda>calls obj. list_ex (creates_shader obj) calls)"
  "gl_is_program sample_env = (\<lambda>calls obj. obj = 100 \<or> list_ex (creates_program obj) calls)"
  "gl_compile_status sample_env =
        (\<lambda>calls obj. find_str ''#error'' (concat (shader_strings obj calls)) = None)"
  "gl_shader_log sample_env =
        (\<lambda>calls obj. if find_str ''#error'' (concat (shader_strings obj calls)) = None then ''''
                      else ''ERROR: #error directive'')"
  "gl_link_status sample_env = (\<lambda>calls g. True)"
  "gl_program_log sample_env = (\<lambda>calls g. '''')"
  "gl_validate_status sample_env = (\<lambda>calls g. True)"
  "gl_uniform_location sample_env = (\<lambda>calls g name. if name = ''color'' then 3 else - 1)"
  by (simp_all add: sample_env_def)

lemmas run_defs = Reload_def ReloadState_def ClearUniformLocations_def SetShaderDefinitions_def
  SetDefinitions_def ReloadShaderObjects_def ReloadFromTextOrFile_def GetShaderSource_def
  RecalculateShaderHash_def GetHash_def UpdateProg_def CreateAndLink_def
  CreateAndCompileShaderObject_def shader_sources_def ExtractVersionDirective_def
  EnsureEndsWith_def suffix_to_prefix assert_fails_def gl_do_def LOG_L_def Find_def Push_def
  ValidateAndCopyUniforms_def Validate_def GLSLCopyState_def SetLocation_def
  glslIsValid_def glslGetLog_def
  GL_INVALID_INDEX_def Let_def sample_env_simps sample_world_def sample_program_def



section \<open>Compile failures\<close>










section \<open>Reloading a program without shader objects\<close>

lemma ReloadState_empty:
  assumes "shaderObjs po = []"
  shows "ReloadState e r po w =
     (False,
      po\<lparr>log := '''',
         uniformStates := map_option (SetLocation GL_INVALID_INDEX) \<circ> uniformStates po,
         shaderFlags := fst (flags_UpdateHash e (shaderFlags po)),
         hash := snd (flags_UpdateHash e (shaderFlags po))\<rparr>, w)"
  using assms
  by (auto simp: ReloadState_def Let_def ClearUniformLocations_def SetShaderDefinitions_def
      ReloadShaderObjects_def RecalculateShaderHash_def split: prod.splits)

text \<open>
  Claim C8. When the shader-object list is empty after the reload-state step,
  \<^verbatim>\<open>Reload\<close> returns the program as that step left it with the validity flag false. The
  world is unchanged: no call to OpenGL was made (nothing was created, compiled, linked or
  deleted), the program cache was neither read into the program nor written, nothing was
  logged. The program handle is the one from before, and the reload-state step itself only
  cleared the log and the uniform locations and recomputed the hash from the flags.
\<close>

theorem Reload_empty_program:
  assumes rs: "ReloadState e (force \<or> \<not> valid po \<or> glid po = 0) po w = (nonEmpty, po1, w1)"
    and empty: "shaderObjs po1 = []"
  shows "Reload e force validate po w = Inr (po1\<lparr>valid := False\<rparr>, w) \<and> w1 = w \<and>
         glid po1 = glid po \<and>
         po1 = po\<lparr>log := '''',
                  uniformStates := map_option (SetLocation GL_INVALID_INDEX) \<circ> uniformStates po,
                  shaderFlags := fst (flags_UpdateHash e (shaderFlags po)),
                  hash := snd (flags_UpdateHash e (shaderFlags po))\<rparr>"
proof -
  from ReloadState_fields(12) [OF rs] empty have e0: "shaderObjs po = []" by simp
  note st = ReloadState_empty [OF e0, of e "force \<or> \<not> valid po \<or> glid po = 0" w]
  from rs st have eqs: "nonEmpty = False" "w1 = w"
    "po1 = po\<lparr>log := '''',
         uniformStates := map_option (SetLocation GL_INVALID_INDEX) \<circ> uniformStates po,
         shaderFlags := fst (flags_UpdateHash e (shaderFlags po)),
         hash := snd (flags_UpdateHash e (shaderFlags po))\<rparr>"
    by simp_all
  have "Reload e force validate po w = Inr (po1\<lparr>valid := False\<rparr>, w)"
    unfolding Reload_def Let_def st eqs(3) by simp
  with eqs show ?thesis by simp
qed

theorem Reload_empty_program_witness:
  "shaderObjs ((sample_program '''')\<lparr>shaderObjs := []\<rparr>) = [] \<and>
   Reload sample_env False True ((sample_program '''')\<lparr>shaderObjs := []\<rparr>) sample_world =
     Inr ((sample_program '''')
            \<lparr>shaderObjs := [],
             uniformStates := map_option (SetLocation GL_INVALID_INDEX) \<circ>
                uniformStates (sample_program ''''),
             shaderFlags := \<lparr>sf_defs = '''', sf_hash_set = True, sf_updated = False\<rparr>\<rparr>,
          sample_world)"
  using Reload_empty_program [of sample_env False "(sample_program '''')\<lparr>shaderObjs := []\<rparr>"
      sample_world
      "fst (ReloadState sample_env True ((sample_program '''')\<lparr>shaderObjs := []\<rparr>) sample_world)"
      "fst (snd (ReloadState sample_env True ((sample_program '''')\<lparr>shaderObjs := []\<rparr>) sample_world))"
      "snd (snd (ReloadState sample_env True ((sample_program '''')\<lparr>shaderObjs := []\<rparr>) sample_world))"
      True]
  by (simp add: run_defs)

section \<open>Index-based setters and unknown uniforms\<close>

text \<open>\<^verbatim>\<open>SetUniformLocation\<close> registers the name's hash and makes sure the table has a state
  under it; \<^verbatim>\<open>Release\<close> empties the table and keeps the registered hashes. So an index
  whose hash has no state is what a released program is left with.\<close>

lemma SetUniformLocation_registers:
  "uniformLocs (SetUniformLocation e name po w) = uniformLocs po @ [hashString e name] \<and>
   uniformStates (SetUniformLocation e name po w) (hashString e name) \<noteq> None"
  by (simp add: SetUniformLocation_def GetUniformState_def GetNewUniformState_def Let_def)

lemma Release_keeps_uniformLocs:
  "uniformLocs (fst (Release e po w)) = uniformLocs po \<and>
   uniformStates (fst (Release e po w)) = Map.empty"
  by (simp add: Release_def IProgramObject_Release_def Let_def)

text \<open>
  Claim C10. An index-based setter called on a bound program with an index of
  \<^verbatim>\<open>uniformLocs\<close> whose registered name hash has no entry in the uniform-state table
  returns without an error and leaves the program object and the world as they were: no
  call to OpenGL, no state created or changed, nothing logged. The argument \<open>v\<close> ranges
  over the seventeen setters.
\<close>

theorem SetUniformIdx_unknown_uniform:
  assumes "bound po" and "0 \<le> idx" and "idx < int (length (uniformLocs po))"
    and "uniformStates po (uniformLocs po ! nat idx) = None"
  shows "SetUniformIdx e idx v po w = Inr (po, w)"
  using assms by (simp add: SetUniformIdx_def assert_fails_def)

theorem SetUniformIdx_unknown_uniform_witness:
  "bound ((sample_program '''')\<lparr>bound := True, uniformLocs := [5, 7]\<rparr>) \<and>
   uniformStates ((sample_program '''')\<lparr>bound := True, uniformLocs := [5, 7]\<rparr>) 7 = None \<and>
   SetUniform1i sample_env 1 0 ((sample_program '''')\<lparr>bound := True, uniformLocs := [5, 7]\<rparr>)
     sample_world =
     Inr ((sample_program '''')\<lparr>bound := True, uniformLocs := [5, 7]\<rparr>, sample_world) \<and>
   SetUniform3fv sample_env 1 [0, 0, 0]
     ((sample_program '''')\<lparr>bound := True, uniformLocs := [5, 7]\<rparr>) sample_world =
     Inr ((sample_program '''')\<lparr>bound := True, uniformLocs := [5, 7]\<rparr>, sample_world)"
  using
    SetUniformIdx_unknown_uniform [of "(sample_program '''')\<lparr>bound := True, uniformLocs := [5, 7]\<rparr>"
      1 sample_env "U1i 0" sample_world]
    SetUniformIdx_unknown_uniform [of "(sample_program '''')\<lparr>bound := True, uniformLocs := [5, 7]\<rparr>"
      1 sample_env "U3fv [0, 0, 0]" sample_world]
  by (simp add: sample_program_def SetUniform1i_def SetUniform3fv_def)

section \<open>Skipping the reload\<close>

text \<open>
  Claim C5. When the hash of the definition flags is set and the flags have not changed since
  it was computed, \<^verbatim>\<open>MaybeReload\<close> returns the program object and the world as they are:
  no reload, so no compilation. Every reload recomputes the flags' hash (also the one that
  stops at an empty program); so when \<^verbatim>\<open>UpdateHash\<close> leaves the hash set and the flags
  unchanged (the flags' code is a parameter here), a second \<^verbatim>\<open>MaybeReload\<close> right after
  a first one that returned is always such a no-op: two calls in a row compile at most once.
\<close>

theorem MaybeReload_idempotent:
  "(flags_HashSet e (shaderFlags po) \<and> \<not> flags_Updated e (shaderFlags po) \<longrightarrow>
      MaybeReload e validate po w = Inr (po, w)) \<and>
   ((\<forall>fl. flags_HashSet e (fst (flags_UpdateHash e fl)) \<and>
          \<not> flags_Updated e (fst (flags_UpdateHash e fl))) \<longrightarrow>
    MaybeReload e validate po w = Inr (po', w') \<longrightarrow>
      MaybeReload e validate2 po' w' = Inr (po', w'))"
proof (intro conjI impI)
  assume "flags_HashSet e (shaderFlags po) \<and> \<not> flags_Updated e (shaderFlags po)"
  then show "MaybeReload e validate po w = Inr (po, w)"
    by (simp add: MaybeReload_def)
next
  assume contract: "\<forall>fl. flags_HashSet e (fst (flags_UpdateHash e fl)) \<and>
          \<not> flags_Updated e (fst (flags_UpdateHash e fl))"
    and first: "MaybeReload e validate po w = Inr (po', w')"
  have "flags_HashSet e (shaderFlags po') \<and> \<not> flags_Updated e (shaderFlags po')"
  proof (cases "flags_HashSet e (shaderFlags po) \<and> \<not> flags_Updated e (shaderFlags po)")
    case True
    with first have "po' = po" by (simp add: MaybeReload_def)
    with True show ?thesis by simp
  next
    case False
    with first have "Reload e (\<not> flags_HashSet e (shaderFlags po)) validate po w = Inr (po', w')"
      by (auto simp: MaybeReload_def)
    from Reload_frame [OF this] have "shaderFlags po' = fst (flags_UpdateHash e (shaderFlags po))"
      by simp
    with contract show ?thesis by simp
  qed
  then show "MaybeReload e validate2 po' w' = Inr (po', w')"
    by (simp add: MaybeReload_def)
qed

theorem MaybeReload_idempotent_witness:
  "(\<forall>fl. flags_HashSet sample_env (fst (flags_UpdateHash sample_env fl)) \<and>
         \<not> flags_Updated sample_env (fst (flags_UpdateHash sample_env fl))) \<and>
   MaybeReload sample_env True ((sample_program ''void main() {}'')\<lparr>shaderFlags := \<lparr>sf_defs = '''', sf_hash_set = True, sf_updated = False\<rparr>\<rparr>) sample_world =
     Inr (((sample_program ''void main() {}'')\<lparr>shaderFlags := \<lparr>sf_defs = '''', sf_hash_set = True, sf_updated = False\<rparr>\<rparr>), sample_world) \<and>
   (case MaybeReload sample_env True (sample_program ''void main() {}'') sample_world of
      Inl err \<Rightarrow> False
    | Inr (po', w') \<Rightarrow>
        gl_calls w' =
          [GlCreateProgram 1, GlCreateShader 35633 2,
           GlShaderSource 2 [''// SHADER VERSION\<newline>'', '''', ''// SHADER FLAGS\<newline>'', ''\<newline>'',
              ''// SHADER SOURCE\<newline>'', ''#line 1\<newline>'', ''void main() {}''],
           GlCompileShader 2, GlDeleteShader 0, GlDeleteShader 0, GlAttachShader 1 2,
           GlDeleteShader 2, GlLinkProgram 1, GlValidateProgram 1,
           GlslCopyState 1 0, GlDeleteProgram 100] \<and>
        MaybeReload sample_env True po' w' = Inr (po', w'))"
  using
    MaybeReload_idempotent [of sample_env "((sample_program ''void main() {}'')\<lparr>shaderFlags := \<lparr>sf_defs = '''', sf_hash_set = True, sf_updated = False\<rparr>\<rparr>)" True sample_world]
    MaybeReload_idempotent [of sample_env "(sample_program ''void main() {}'')" True sample_world
      "fst (projr (MaybeReload sample_env True (sample_program ''void main() {}'') sample_world))"
      "snd (projr (MaybeReload sample_env True (sample_program ''void main() {}'') sample_world))" True]
  by (simp add: MaybeReload_def run_defs)

section \<open>Binding a program\<close>

lemma Enable_result:
  "Enable e po w = Inr (po', w') \<longleftrightarrow>
     (\<exists>po1 w1. MaybeReload e True po w = Inr (po1, w1) \<and> po' = po1\<lparr>bound := True\<rparr> \<and>
        w' = gl_do (GlUseProgram (glid po1)) w1)"
  by (auto simp: Enable_def IProgramObject_Enable_def split: sum.splits)

text \<open>
  Claim C4 (amended). \<^verbatim>\<open>Enable\<close>, when it returns, leaves the program bound whatever
  its validity: the result is the program \<^verbatim>\<open>MaybeReload\<close> left, marked bound, so bound
  implies valid afterwards exactly when \<^verbatim>\<open>MaybeReload\<close> left the program valid. When the
  reload that \<^verbatim>\<open>Enable\<close> triggers fails because the program has no shader objects, the
  program ends bound and invalid. \<^verbatim>\<open>Disable\<close> and \<^verbatim>\<open>Release\<close> leave the program
  unbound.
\<close>

theorem Enable_binds:
  "(Enable e po w = Inr (po', w') \<longrightarrow>
      bound po' \<and>
      (\<exists>po1 w1. MaybeReload e True po w = Inr (po1, w1) \<and> po' = po1\<lparr>bound := True\<rparr> \<and>
         w' = gl_do (GlUseProgram (glid po1)) w1 \<and>
         ((bound po' \<longrightarrow> valid po') \<longleftrightarrow> valid po1))) \<and>
   (shaderObjs po = [] \<and> \<not> (flags_HashSet e (shaderFlags po) \<and> \<not> flags_Updated e (shaderFlags po)) \<longrightarrow>
      (\<exists>po' w'. Enable e po w = Inr (po', w') \<and> bound po' \<and> \<not> valid po')) \<and>
   \<not> bound (fst (Disable po w)) \<and> \<not> bound (fst (Release e po w))"
proof (intro conjI impI)
  assume en: "Enable e po w = Inr (po', w')"
  then obtain po1 w1 where *: "MaybeReload e True po w = Inr (po1, w1)" "po' = po1\<lparr>bound := True\<rparr>"
    "w' = gl_do (GlUseProgram (glid po1)) w1"
    unfolding Enable_result by blast
  then show "bound po'" by simp
  from * show "\<exists>po1 w1. MaybeReload e True po w = Inr (po1, w1) \<and> po' = po1\<lparr>bound := True\<rparr> \<and>
         w' = gl_do (GlUseProgram (glid po1)) w1 \<and>
         ((bound po' \<longrightarrow> valid po') \<longleftrightarrow> valid po1)"
    by auto
next
  assume a: "shaderObjs po = [] \<and>
    \<not> (flags_HashSet e (shaderFlags po) \<and> \<not> flags_Updated e (shaderFlags po))"
  then have e0: "shaderObjs po = []" by simp
  note st = ReloadState_empty [OF e0, of e _ w]
  have "\<exists>po1. Reload e (\<not> flags_HashSet e (shaderFlags po)) True po w = Inr (po1, w) \<and> \<not> valid po1"
    unfolding Reload_def Let_def st by simp
  with a have "\<exists>po1. MaybeReload e True po w = Inr (po1, w) \<and> \<not> valid po1"
    by (auto simp: MaybeReload_def)
  then obtain po1 where m: "MaybeReload e True po w = Inr (po1, w)" "\<not> valid po1" by blast
  have "Enable e po w = Inr (po1\<lparr>bound := True\<rparr>, gl_do (GlUseProgram (glid po1)) w)"
    unfolding Enable_result using m by blast
  with m(2) show "\<exists>po' w'. Enable e po w = Inr (po', w') \<and> bound po' \<and> \<not> valid po'"
    by auto
next
  show "\<not> bound (fst (Disable po w))"
    by (simp add: Disable_def IProgramObject_Disable_def)
  show "\<not> bound (fst (Release e po w))"
    by (simp add: Release_def IProgramObject_Release_def Let_def)
qed

theorem Enable_binds_witness:
  "map_option bound (result_program (Enable sample_env (sample_program ''void main() {}'') sample_world)) = Some True \<and>
   map_option valid (result_program (Enable sample_env (sample_program ''void main() {}'') sample_world)) = Some True \<and>
   shaderObjs ((sample_program '''')\<lparr>shaderObjs := []\<rparr>) = [] \<and>
   map_option bound (result_program (Enable sample_env ((sample_program '''')\<lparr>shaderObjs := []\<rparr>) sample_world)) = Some True \<and>
   map_option valid (result_program (Enable sample_env ((sample_program '''')\<lparr>shaderObjs := []\<rparr>) sample_world)) = Some False"
  using
    Enable_binds [of sample_env "(sample_program ''void main() {}'')" sample_world
      "fst (projr (Enable sample_env (sample_program ''void main() {}'') sample_world))"
      "snd (projr (Enable sample_env (sample_program ''void main() {}'') sample_world))"]
    Enable_binds [of sample_env "((sample_program '''')\<lparr>shaderObjs := []\<rparr>)" sample_world
      "fst (projr (Enable sample_env ((sample_program '''')\<lparr>shaderObjs := []\<rparr>) sample_world))"
      "snd (projr (Enable sample_env ((sample_program '''')\<lparr>shaderObjs := []\<rparr>) sample_world))"]
  by (simp add: Enable_def IProgramObject_Enable_def MaybeReload_def run_defs result_program_def)

theorem Enable_binds_invalid_program:
  "map_option bound (result_program (Enable sample_env (sample_program ''#error\<newline>void main() {}'') sample_world)) = Some True \<and>
   map_option valid (result_program (Enable sample_env (sample_program ''#error\<newline>void main() {}'') sample_world)) = Some False"
  by (simp add: Enable_def IProgramObject_Enable_def MaybeReload_def run_defs result_program_def)

section \<open>Uniform state across a reload\<close>


lemma not_copy_call:
  "is_shader_call c \<or> c = GlCreateProgram g \<or> c = GlLinkProgram g \<or> c = GlValidateProgram g \<or>
   c = GlDeleteProgram g' \<Longrightarrow> \<not> is_copy_call c"
  by (cases c) auto




section \<open>Set if changed\<close>

text \<open>
  Claim C1 (amended). On a bound program, for a uniform state whose location is resolved (not
  \<^verbatim>\<open>GL_INVALID_INDEX\<close>) and whose cached value differs from \<open>v\<close> (a state never set
  differs from every value): the first call of a setter with \<open>v\<close> makes one
  \<^verbatim>\<open>glUniform\<close> call and caches \<open>v\<close>; calling the same setter again with \<open>v\<close> changes
  neither the program object nor the world, so the two calls make exactly one GPU write;
  calling it with a different value \<open>v2\<close> instead makes a second \<^verbatim>\<open>glUniform\<close> call and
  caches \<open>v2\<close>. The same holds for the index-based setters at an index registered for the
  state. (When the location is not found the setters make no GPU write at all.)
\<close>

theorem SetUniform_set_if_changed:
  assumes b: "bound po"
    and us: "uniformStates po k = Some us"
    and loc: "IsLocationValid us"
    and new: "us_value us \<noteq> Some v"
  shows "SetUniform e k v po w = Inr (set_cached k us v po, gl_do (GlUniform (us_location us) v) w) \<and>
         SetUniform e k v (set_cached k us v po) w2 = Inr (set_cached k us v po, w2) \<and>
         (v2 \<noteq> v \<longrightarrow>
            SetUniform e k v2 (set_cached k us v po) w2 =
              Inr (set_cached k us v2 po, gl_do (GlUniform (us_location us) v2) w2)) \<and>
         (0 \<le> idx \<and> idx < int (length (uniformLocs po)) \<and> uniformLocs po ! nat idx = k \<longrightarrow>
            SetUniformIdx e idx v po w =
              Inr (set_cached k us v po, gl_do (GlUniform (us_location us) v) w) \<and>
            SetUniformIdx e idx v (set_cached k us v po) w2 = Inr (set_cached k us v po, w2) \<and>
            (v2 \<noteq> v \<longrightarrow>
               SetUniformIdx e idx v2 (set_cached k us v po) w2 =
                 Inr (set_cached k us v2 po, gl_do (GlUniform (us_location us) v2) w2)))"
  using b us loc new
  by (auto simp: set_cached_def SetUniform_def SetUniformIdx_def Set_value_def assert_fails_def
      IsLocationValid_def Let_def)

theorem SetUniform_set_if_changed_witness:
  "IsLocationValid \<lparr>us_name = ''color'', us_location = 3, us_value = None\<rparr> \<and>
   map_option gl_calls (result_world (SetUniform sample_env 5 (U3f 0x3F800000 0 0) ((sample_program '''')\<lparr>bound := True, uniformStates := [5 \<mapsto> \<lparr>us_name = ''color'', us_location = 3, us_value = None\<rparr>]\<rparr>) sample_world)) =
     Some [GlUniform 3 (U3f 0x3F800000 0 0)] \<and>
   result_program (SetUniform sample_env 5 (U3f 0x3F800000 0 0) ((sample_program '''')\<lparr>bound := True, uniformStates := [5 \<mapsto> \<lparr>us_name = ''color'', us_location = 3, us_value = None\<rparr>]\<rparr>) sample_world) =
     Some (set_cached 5 \<lparr>us_name = ''color'', us_location = 3, us_value = None\<rparr> (U3f 0x3F800000 0 0) ((sample_program '''')\<lparr>bound := True, uniformStates := [5 \<mapsto> \<lparr>us_name = ''color'', us_location = 3, us_value = None\<rparr>]\<rparr>)) \<and>
   SetUniform sample_env 5 (U3f 0x3F800000 0 0) (set_cached 5 \<lparr>us_name = ''color'', us_location = 3, us_value = None\<rparr> (U3f 0x3F800000 0 0) ((sample_program '''')\<lparr>bound := True, uniformStates := [5 \<mapsto> \<lparr>us_name = ''color'', us_location = 3, us_value = None\<rparr>]\<rparr>))
       (gl_do (GlUniform 3 (U3f 0x3F800000 0 0)) sample_world) =
     Inr (set_cached 5 \<lparr>us_name = ''color'', us_location = 3, us_value = None\<rparr> (U3f 0x3F800000 0 0) ((sample_program '''')\<lparr>bound := True, uniformStates := [5 \<mapsto> \<lparr>us_name = ''color'', us_location = 3, us_value = None\<rparr>]\<rparr>), gl_do (GlUniform 3 (U3f 0x3F800000 0 0)) sample_world) \<and>
   map_option gl_calls (result_world (SetUniform sample_env 5 (U3f 0 0 0)
       (set_cached 5 \<lparr>us_name = ''color'', us_location = 3, us_value = None\<rparr> (U3f 0x3F800000 0 0) ((sample_program '''')\<lparr>bound := True, uniformStates := [5 \<mapsto> \<lparr>us_name = ''color'', us_location = 3, us_value = None\<rparr>]\<rparr>)) (gl_do (GlUniform 3 (U3f 0x3F800000 0 0)) sample_world))) =
     Some [GlUniform 3 (U3f 0x3F800000 0 0), GlUniform 3 (U3f 0 0 0)] \<and>
   map_option gl_calls (result_world (SetUniform3fv sample_env 0 [0x3F800000, 0, 0] ((sample_program '''')\<lparr>bound := True, uniformStates := [5 \<mapsto> \<lparr>us_name = ''color'', us_location = 3, us_value = None\<rparr>]\<rparr>) sample_world)) =
     Some [GlUniform 3 (U3fv [0x3F800000, 0, 0])]"
  using
    SetUniform_set_if_changed [of "((sample_program '''')\<lparr>bound := True, uniformStates := [5 \<mapsto> \<lparr>us_name = ''color'', us_location = 3, us_value = None\<rparr>]\<rparr>)" 5 "\<lparr>us_name = ''color'', us_location = 3, us_value = None\<rparr>" "(U3f 0x3F800000 0 0)" sample_env sample_world
      "gl_do (GlUniform 3 (U3f 0x3F800000 0 0)) sample_world" "(U3f 0 0 0)" 0]
    SetUniform_set_if_changed [of "((sample_program '''')\<lparr>bound := True, uniformStates := [5 \<mapsto> \<lparr>us_name = ''color'', us_location = 3, us_value = None\<rparr>]\<rparr>)" 5 "\<lparr>us_name = ''color'', us_location = 3, us_value = None\<rparr>" "U3fv [0x3F800000, 0, 0]" sample_env sample_world
      "gl_do (GlUniform 3 (U3f 0x3F800000 0 0)) sample_world" "(U3f 0 0 0)" 0]
  by (simp add: IsLocationValid_def GL_INVALID_INDEX_def sample_program_def sample_world_def
      result_world_def result_program_def gl_do_def SetUniform3fv_def)

theorem SetUniform_location_not_found:
  "map_option gl_calls (result_world (SetUniform sample_env 5 (U3f 0x3F800000 0 0) ((sample_program '''')\<lparr>bound := True, uniformStates := [5 \<mapsto> \<lparr>us_name = ''color'', us_location = - 1, us_value = None\<rparr>]\<rparr>) sample_world)) = Some [] \<and>
   result_program (SetUniform sample_env 5 (U3f 0x3F800000 0 0) ((sample_program '''')\<lparr>bound := True, uniformStates := [5 \<mapsto> \<lparr>us_name = ''color'', us_location = - 1, us_value = None\<rparr>]\<rparr>) sample_world) =
     Some (set_cached 5 \<lparr>us_name = ''color'', us_location = - 1, us_value = None\<rparr> (U3f 0x3F800000 0 0) ((sample_program '''')\<lparr>bound := True, uniformStates := [5 \<mapsto> \<lparr>us_name = ''color'', us_location = - 1, us_value = None\<rparr>]\<rparr>)) \<and>
   map_option gl_calls (result_world (SetUniform sample_env 5 (U3f 0 0 0)
       (set_cached 5 \<lparr>us_name = ''color'', us_location = - 1, us_value = None\<rparr> (U3f 0x3F800000 0 0) ((sample_program '''')\<lparr>bound := True, uniformStates := [5 \<mapsto> \<lparr>us_name = ''color'', us_location = - 1, us_value = None\<rparr>]\<rparr>)) sample_world)) = Some [] \<and>
   result_program (SetUniform sample_env 5 (U3f 0 0 0) (set_cached 5 \<lparr>us_name = ''color'', us_location = - 1, us_value = None\<rparr> (U3f 0x3F800000 0 0) ((sample_program '''')\<lparr>bound := True, uniformStates := [5 \<mapsto> \<lparr>us_name = ''color'', us_location = - 1, us_value = None\<rparr>]\<rparr>)) sample_world) =
     Some (set_cached 5 \<lparr>us_name = ''color'', us_location = - 1, us_value = None\<rparr> (U3f 0 0 0) ((sample_program '''')\<lparr>bound := True, uniformStates := [5 \<mapsto> \<lparr>us_name = ''color'', us_location = - 1, us_value = None\<rparr>]\<rparr>))"
  by (simp add: SetUniform_def Set_value_def IsLocationValid_def GL_INVALID_INDEX_def
      assert_fails_def sample_env_simps sample_program_def sample_world_def set_cached_def
      result_world_def result_program_def gl_do_def Let_def)

end
